theory Spec2Isabelle
  imports Complex_Main "HOL-Library.Monad_Syntax"
begin

section \<open>The learning engine of collaborativepermute (predictor.go)\<close>

text \<open>
  The engine keeps three matrices and four scalars of Go type \<open>float64\<close> and a history
  of answered queries. The model is parametric in the arithmetic: the \<open>float64\<close>
  operators the source uses are the fields of an \<open>arith\<close> record over a type \<open>'f\<close> of
  numbers, and the functions the source calls but does not define (\<open>math.Sqrt\<close>,
  \<open>math.Exp\<close>, the array library \<open>gauss\<close>) are parameters too. Two arithmetics are
  given: \<open>b64\<close>, binary64 values with correctly rounded operations, which is the
  arithmetic the source runs in, and \<open>exact\<close>, the real numbers, in which no operation
  rounds.

  What does not depend on rounding (validation, the candidates of a query and their
  weights, what is written and what is not, the candidate at which the walk of
  \<open>Generate\<close> stops, the order of the pair it returns) is proved for every arithmetic.
  Where a sentence of the specification and the source differ by rounding (the cell
  that \<open>gradientLoss\<close> restores, the matrix \<open>Respond\<close> saves, the gradient, the candidate
  chosen, the end of the walk), the source is evaluated in \<open>b64\<close> on a concrete engine.
  The lemmas about \<open>exact\<close> say what the same source computes when no operation rounds.

  A Go panic (an index out of range, a failing library call, the explicit \<open>panic\<close> of
  \<open>Generate\<close>) is the value \<open>None\<close>.
\<close>

subsection \<open>Data\<close>

text \<open>\<open>gauss.Array\<close>, as the source uses it: the cells in \<open>Data\<close>, the dimensions in \<open>Shape\<close>.\<close>

record 'f Array =
  Data :: "'f list"
  Shape :: "int list"

text \<open>\<open>type Query struct { User int; Choices []int; weight float64 }\<close>\<close>

record 'f Query =
  User :: int
  Choices :: "int list"
  weight :: 'f

text \<open>\<open>type Engine struct { X, Xp, Z gauss.Array; Nu, Alpha, Lambda, T float64; History []Query }\<close>\<close>

record 'f Engine =
  X :: "'f Array"
  Xp :: "'f Array"
  Z :: "'f Array"
  Nu :: 'f
  Alpha :: 'f
  Lambda :: 'f
  T :: 'f
  History :: "'f Query list"

text \<open>
  The \<open>float64\<close> operations of the source: \<open>+ - * /\<close>, unary minus, \<open>math.Max\<close>,
  \<open>math.Abs\<close>, \<open><\<close>, an integer literal (\<open>fnum\<close>), a decimal literal \<open>m / 10^k\<close>
  (\<open>fdec\<close>, so that \<open>0.0001\<close> is \<open>fdec 1 4\<close>) and the conversion \<open>float64(len(...))\<close>
  (\<open>flen\<close>).
\<close>

record 'f arith =
  fadd :: "'f \<Rightarrow> 'f \<Rightarrow> 'f"
  fsub :: "'f \<Rightarrow> 'f \<Rightarrow> 'f"
  fmul :: "'f \<Rightarrow> 'f \<Rightarrow> 'f"
  fdiv :: "'f \<Rightarrow> 'f \<Rightarrow> 'f"
  fneg :: "'f \<Rightarrow> 'f"
  fmax :: "'f \<Rightarrow> 'f \<Rightarrow> 'f"
  fabs :: "'f \<Rightarrow> 'f"
  flt :: "'f \<Rightarrow> 'f \<Rightarrow> bool"
  fnum :: "int \<Rightarrow> 'f"
  fdec :: "int \<Rightarrow> nat \<Rightarrow> 'f"
  flen :: "nat \<Rightarrow> 'f"

text \<open>
  Modelled from the spec: the array library \<open>github.com/fatlotus/gauss\<close> is not part of
  the repository. Section 6 of the specification lists its operations as functions from
  matrices to matrices; each is a parameter here and may fail (\<open>None\<close>). \<open>index\<close> is the
  position in \<open>Data\<close> of the cell that \<open>I(row, col)\<close> refers to, for a given shape, or
  \<open>None\<close> where the bounds check of \<open>I\<close> fails.
\<close>

record 'f gauss =
  index :: "int list \<Rightarrow> int \<Rightarrow> int \<Rightarrow> nat option"
  Sum :: "'f Array \<Rightarrow> 'f Array \<Rightarrow> 'f Array option"
  Scale :: "'f Array \<Rightarrow> 'f \<Rightarrow> 'f Array option"
  Product :: "'f Array \<Rightarrow> 'f Array \<Rightarrow> 'f Array option"
  Transpose :: "'f Array \<Rightarrow> 'f Array option"
  Diagonal :: "'f list \<Rightarrow> 'f Array option"
  SVD :: "'f Array \<Rightarrow> ('f Array \<times> 'f Array \<times> 'f Array) option"

type_synonym indexing = "int list \<Rightarrow> int \<Rightarrow> int \<Rightarrow> nat option"

text \<open>The three errors \<open>Respond\<close> builds with \<open>fmt.Errorf\<close>, with the numbers they print.\<close>

datatype error =
  NotBinary
  | UserOutOfRange int int
  | ChoiceOutOfRange int int

subsection \<open>Slices and cells\<close>

text \<open>\<open>xs[i]\<close> on a Go slice: a panic outside \<open>0 \<le> i < len(xs)\<close>.\<close>

definition elem :: "'a list \<Rightarrow> int \<Rightarrow> 'a option" where
  "elem xs i = (if 0 \<le> i \<and> i < int (length xs) then Some (xs ! nat i) else None)"

text \<open>\<open>*a.I(u, c)\<close>: the cell of \<open>a\<close> at row \<open>u\<close> and column \<open>c\<close>.\<close>

definition cell :: "indexing \<Rightarrow> 'f Array \<Rightarrow> int \<Rightarrow> int \<Rightarrow> 'f option" where
  "cell ix a u c =
     (case ix (Shape a) u c of
        None \<Rightarrow> None
      | Some k \<Rightarrow> if k < length (Data a) then Some (Data a ! k) else None)"

text \<open>
  Modelled from the spec: \<open>gauss.Zero(shape...)\<close> allocates a zero-filled matrix of the
  given shape, one cell for each position. A negative dimension cannot be allocated.
\<close>

definition Zero :: "'f arith \<Rightarrow> int list \<Rightarrow> 'f Array option" where
  "Zero A shape =
     (if \<exists>d \<in> set shape. d < 0 then None
      else Some \<lparr>Data = replicate (nat (prod_list shape)) (fnum A 0), Shape = shape\<rparr>)"

text \<open>Writing one cell of \<open>p.X.Data\<close> in place.\<close>

definition set_cell :: "'f Engine \<Rightarrow> nat \<Rightarrow> 'f \<Rightarrow> 'f Engine" where
  "set_cell p i v = p\<lparr>X := (X p)\<lparr>Data := (Data (X p))[i := v]\<rparr>\<rparr>"

subsection \<open>NewEngine\<close>

definition NewEngine :: "'f arith \<Rightarrow> int \<Rightarrow> int \<Rightarrow> 'f Engine option" where
  "NewEngine A users choices =
     (case Zero A [users, choices] of
        None \<Rightarrow> None
      | Some z \<Rightarrow> Some \<lparr>X = z, Xp = z, Z = z, Nu = fnum A 1, Alpha = fnum A 1,
                       Lambda = fdec A 4 2, T = fnum A 1, History = []\<rparr>)"

subsection \<open>hingeLoss\<close>

text \<open>
  The loop of \<open>hingeLoss\<close> with its running \<open>sum\<close>; every \<open>Choices[k]\<close> and every cell
  access can panic.
\<close>

fun loss_loop :: "'f arith \<Rightarrow> indexing \<Rightarrow> 'f Array \<Rightarrow> 'f \<Rightarrow> 'f Query list \<Rightarrow> 'f option" where
  "loss_loop A ix x s [] = Some s"
| "loss_loop A ix x s (q # qs) =
     (case elem (Choices q) 0 of None \<Rightarrow> None | Some c0 \<Rightarrow>
      case cell ix x (User q) c0 of None \<Rightarrow> None | Some x0 \<Rightarrow>
      case elem (Choices q) 1 of None \<Rightarrow> None | Some c1 \<Rightarrow>
      case cell ix x (User q) c1 of None \<Rightarrow> None | Some x1 \<Rightarrow>
        loss_loop A ix x
          (fadd A s (fmax A (fsub A (fnum A 1) (fsub A x0 x1)) (fnum A 0))) qs)"

definition hingeLoss :: "'f arith \<Rightarrow> indexing \<Rightarrow> 'f Engine \<Rightarrow> 'f Query list \<Rightarrow> 'f option" where
  "hingeLoss A ix p samps =
     (case loss_loop A ix (X p) (fnum A 0) samps of
        None \<Rightarrow> None
      | Some s \<Rightarrow> Some (fdiv A s (flen A (length samps))))"

subsection \<open>gradientLoss\<close>

text \<open>
  The loop over the cells of \<open>result\<close>: the cell of \<open>p.X\<close> is raised by \<open>0.0001\<close> in
  place, the loss is taken again, and the cell is lowered by \<open>0.0001\<close>. The state is
  threaded through, since the loss of the next round reads the matrix this round
  leaves.
\<close>

fun grad_loop ::
  "'f arith \<Rightarrow> indexing \<Rightarrow> 'f \<Rightarrow> 'f Query list \<Rightarrow> nat list \<Rightarrow> 'f Array \<Rightarrow> 'f Engine
     \<Rightarrow> ('f Array \<times> 'f Engine) option" where
  "grad_loop A ix before samps [] result p = Some (result, p)"
| "grad_loop A ix before samps (i # is) result p =
     (if i < length (Data (X p)) then
        let p1 = set_cell p i (fadd A (Data (X p) ! i) (fdec A 1 4)) in
        case hingeLoss A ix p1 samps of
          None \<Rightarrow> None
        | Some l \<Rightarrow>
            let result1 = result\<lparr>Data := (Data result)[i := fdiv A (fsub A l before) (fdec A 1 4)]\<rparr>;
                p2 = set_cell p1 i (fsub A (Data (X p1) ! i) (fdec A 1 4))
            in grad_loop A ix before samps is result1 p2
      else None)"

definition gradientLoss ::
  "'f arith \<Rightarrow> indexing \<Rightarrow> 'f Engine \<Rightarrow> 'f Query list \<Rightarrow> ('f Array \<times> 'f Engine) option" where
  "gradientLoss A ix p samps =
     (case Zero A (Shape (X p)) of
        None \<Rightarrow> None
      | Some result \<Rightarrow>
          (case hingeLoss A ix p samps of
             None \<Rightarrow> None
           | Some before \<Rightarrow> grad_loop A ix before samps [0..<length (Data result)] result p))"

subsection \<open>update\<close>

definition update ::
  "'f arith \<Rightarrow> ('f \<Rightarrow> 'f) \<Rightarrow> 'f gauss \<Rightarrow> 'f Engine \<Rightarrow> 'f Query list \<Rightarrow> 'f Engine option" where
  "update A sqrt_f L p samps =
     (let alphaP = fdiv A (fadd A (fnum A 1)
                     (sqrt_f (fadd A (fnum A 1) (fmul A (fmul A (fnum A 4) (Alpha p)) (Alpha p)))))
                     (fnum A 2)
      in do {
        (g, p1) \<leftarrow> gradientLoss A (index L) p samps;
        sg \<leftarrow> Scale L g (fneg A (Nu p1));
        m \<leftarrow> Sum L (Z p) sg;
        (U, S, V) \<leftarrow> SVD L m;
        let S1 = map (\<lambda>s. fmax A (fnum A 0) (fsub A s (Lambda p1))) (Data S);
        let p2 = p1\<lparr>Xp := X p1\<rparr>;
        d \<leftarrow> Diagonal L S1;
        ud \<leftarrow> Product L U d;
        vt \<leftarrow> Transpose L V;
        x1 \<leftarrow> Product L ud vt;
        let p3 = p2\<lparr>X := x1\<rparr>;
        nxp \<leftarrow> Scale L (Xp p3) (fnum A (- 1));
        df \<leftarrow> Sum L (X p3) nxp;
        sc \<leftarrow> Scale L df (fdiv A (fsub A (Alpha p3) (fnum A 1)) alphaP);
        z1 \<leftarrow> Sum L (X p3) sc;
        Some (p3\<lparr>Z := z1, Alpha := alphaP\<rparr>)
      })"

subsection \<open>Respond\<close>

text \<open>
  The loop over \<open>prompt.Choices\<close>. Its result is \<open>Some (Some e)\<close> for the error \<open>e\<close>
  returned from inside the loop, \<open>Some None\<close> when the loop runs to its end.
\<close>

fun check_choices :: "'f Array \<Rightarrow> int list \<Rightarrow> error option option" where
  "check_choices x [] = Some None"
| "check_choices x (c # cs) =
     (case elem (Shape x) 1 of
        None \<Rightarrow> None
      | Some n \<Rightarrow> if c < 0 \<or> c \<ge> n then Some (Some (ChoiceOutOfRange c n))
                  else check_choices x cs)"

definition Respond ::
  "'f arith \<Rightarrow> ('f \<Rightarrow> 'f) \<Rightarrow> 'f gauss \<Rightarrow> 'f Engine \<Rightarrow> 'f Query
     \<Rightarrow> (error option \<times> 'f Engine) option" where
  "Respond A sqrt_f L p prompt =
     (if length (Choices prompt) \<noteq> 2 then Some (Some NotBinary, p)
      else case elem (Shape (X p)) 0 of
        None \<Rightarrow> None
      | Some n \<Rightarrow>
          if User prompt < 0 \<or> User prompt \<ge> n
          then Some (Some (UserOutOfRange (User prompt) n), p)
          else (case check_choices (X p) (Choices prompt) of
                  None \<Rightarrow> None
                | Some (Some e) \<Rightarrow> Some (Some e, p)
                | Some None \<Rightarrow>
                    let p1 = p\<lparr>History := History p @ [prompt]\<rparr> in
                    (case update A sqrt_f L p1 (History p1) of
                       None \<Rightarrow> None
                     | Some p2 \<Rightarrow> Some (None, p2))))"

subsection \<open>Generate\<close>

text \<open>The two inner loops over \<open>a\<close> and \<open>b\<close>, in the order they run, without \<open>a == b\<close>.\<close>

definition pairs :: "int \<Rightarrow> (int \<times> int) list" where
  "pairs n = concat (map (\<lambda>a. map (\<lambda>b. (a, b)) (filter (\<lambda>b. a \<noteq> b) [0..n - 1])) [0..n - 1])"

text \<open>The body of the inner loops, for the user \<open>u\<close>: the running \<open>sum\<close> and \<open>candidates\<close>.\<close>

fun pair_loop ::
  "'f arith \<Rightarrow> ('f \<Rightarrow> 'f) \<Rightarrow> indexing \<Rightarrow> 'f Engine \<Rightarrow> int \<Rightarrow> (int \<times> int) list
     \<Rightarrow> 'f \<times> 'f Query list \<Rightarrow> ('f \<times> 'f Query list) option" where
  "pair_loop A exp_f ix p u [] acc = Some acc"
| "pair_loop A exp_f ix p u ((a, b) # ps) (s, cands) =
     (case cell ix (X p) u a of None \<Rightarrow> None | Some xa \<Rightarrow>
      case cell ix (X p) u b of None \<Rightarrow> None | Some xb \<Rightarrow>
        let diff = fabs A (fsub A xa xb);
            w = exp_f (fdiv A (fneg A diff) (T p))
        in pair_loop A exp_f ix p u ps
             (fadd A s w, cands @ [\<lparr>User = u, Choices = [a, b], weight = w\<rparr>]))"

text \<open>The outer loop over the users; \<open>p.X.Shape[1]\<close> is read for a user that is not skipped.\<close>

fun user_loop ::
  "'f arith \<Rightarrow> ('f \<Rightarrow> 'f) \<Rightarrow> indexing \<Rightarrow> 'f Engine \<Rightarrow> int \<Rightarrow> int list
     \<Rightarrow> 'f \<times> 'f Query list \<Rightarrow> ('f \<times> 'f Query list) option" where
  "user_loop A exp_f ix p user [] acc = Some acc"
| "user_loop A exp_f ix p user (u # us) acc =
     (if user \<ge> 0 \<and> user \<noteq> u then user_loop A exp_f ix p user us acc
      else case elem (Shape (X p)) 1 of
        None \<Rightarrow> None
      | Some n \<Rightarrow>
          (case pair_loop A exp_f ix p u (pairs n) acc of
             None \<Rightarrow> None
           | Some acc1 \<Rightarrow> user_loop A exp_f ix p user us acc1))"

text \<open>
  The walk over the candidates. The empty list is the end of the loop, where the source
  panics with "Could not find another question".
\<close>

fun walk :: "'f arith \<Rightarrow> indexing \<Rightarrow> 'f Engine \<Rightarrow> 'f \<Rightarrow> 'f Query list \<Rightarrow> 'f Query option" where
  "walk A ix p offset [] = None"
| "walk A ix p offset (option # options) =
     (if flt A offset (weight option) then
        case elem (Choices option) 0 of None \<Rightarrow> None | Some c0 \<Rightarrow>
        case cell ix (X p) (User option) c0 of None \<Rightarrow> None | Some x0 \<Rightarrow>
        case elem (Choices option) 1 of None \<Rightarrow> None | Some c1 \<Rightarrow>
        case cell ix (X p) (User option) c1 of None \<Rightarrow> None | Some x1 \<Rightarrow>
          Some (if flt A x0 x1 then option\<lparr>Choices := (Choices option)[0 := c1, 1 := c0]\<rparr>
                else option)
      else walk A ix p (fsub A offset (weight option)) options)"

text \<open>
  \<open>Generate\<close>, with the value \<open>r\<close> of \<open>rand.Float64()\<close> as an argument. The second
  component is the engine after the call.
\<close>

definition Generate ::
  "'f arith \<Rightarrow> ('f \<Rightarrow> 'f) \<Rightarrow> indexing \<Rightarrow> 'f Engine \<Rightarrow> int \<Rightarrow> 'f \<Rightarrow> 'f Query option \<times> 'f Engine" where
  "Generate A exp_f ix p user r =
     (case elem (Shape (X p)) 0 of
        None \<Rightarrow> (None, p)
      | Some n \<Rightarrow>
          (case user_loop A exp_f ix p user [0..n - 1] (fnum A 0, []) of
             None \<Rightarrow> (None, p)
           | Some (s, candidates) \<Rightarrow> (walk A ix p (fmul A r s) candidates, p)))"

text \<open>
  A sequence of calls to \<open>Generate\<close>, each with its filter and its random draw, the
  engine passed from one call to the next. A call that panics is part of the sequence
  like any other: what the caller does with the panic is not the engine's concern.
\<close>

fun generate_all ::
  "'f arith \<Rightarrow> ('f \<Rightarrow> 'f) \<Rightarrow> indexing \<Rightarrow> 'f Engine \<Rightarrow> (int \<times> 'f) list
     \<Rightarrow> 'f Query option list \<times> 'f Engine" where
  "generate_all A exp_f ix p [] = ([], p)"
| "generate_all A exp_f ix p ((user, r) # calls) =
     (let (q, p1) = Generate A exp_f ix p user r;
          (qs, p2) = generate_all A exp_f ix p1 calls
      in (q # qs, p2))"

section \<open>Arithmetics\<close>

subsection \<open>Exact arithmetic\<close>

text \<open>
  Every operation is the operation on the real numbers it stands for. A lemma about
  \<open>exact\<close> says which numbers the source computes when rounding is left aside. A
  quotient by zero is not a real number: the lemmas about the weights of \<open>Generate\<close>
  in exact arithmetic are about a temperature \<open>T\<close> that is not zero, and those about
  the loss about a batch that is not empty.
\<close>

definition exact :: "real arith" where
  "exact = \<lparr>fadd = (+), fsub = (-), fmul = (*), fdiv = (/), fneg = uminus, fmax = max,
     fabs = abs, flt = (<), fnum = of_int, fdec = (\<lambda>m k. of_int m / 10 ^ k), flen = of_nat\<rparr>"

subsection \<open>Binary64\<close>

text \<open>
  Go's \<open>float64\<close> is the IEEE 754 binary64 format, and \<open>+ - * /\<close> round the exact result
  to the nearest value, ties to even. A finite value is \<open>Float m e\<close>, the number
  \<open>m * 2^e\<close>, kept with an odd \<open>m\<close> (or as \<open>Float 0 0\<close>), so that equal numbers are equal
  terms. \<open>fl m e\<close> rounds \<open>m * 2^e\<close> to 53 significant bits. The exponent is not bounded:
  the operations agree with binary64 wherever the result neither overflows nor falls
  below \<open>2^-1022\<close>. Zero has no sign. Infinities and NaN are one value \<open>NonFinite\<close>, which
  every operation passes on and no comparison holds for; nothing is proved about it.
  \<open>value_of\<close> is the real number a finite value stands for.
\<close>

datatype float64 = Float int int | NonFinite

fun bitlen :: "nat \<Rightarrow> nat" where
  "bitlen n = (if n = 0 then 0 else Suc (bitlen (n div 2)))"

definition rne :: "nat \<Rightarrow> nat \<Rightarrow> nat" where
  "rne n k =
     (let q = n div 2 ^ k; r = n mod 2 ^ k
      in if 2 * r < 2 ^ k then q
         else if 2 * r > 2 ^ k then q + 1
         else if even q then q else q + 1)"

fun strip :: "nat \<Rightarrow> int \<Rightarrow> nat \<times> int" where
  "strip m e = (if m = 0 then (0, 0) else if even m then strip (m div 2) (e + 1) else (m, e))"

definition fl :: "int \<Rightarrow> int \<Rightarrow> float64" where
  "fl m e =
     (let n = nat \<bar>m\<bar>;
          k = bitlen n - 53;
          (n1, e1) = strip (rne n k) (e + int k)
      in Float (sgn m * int n1) e1)"

fun b64_add :: "float64 \<Rightarrow> float64 \<Rightarrow> float64" where
  "b64_add (Float m1 e1) (Float m2 e2) =
     (let e = min e1 e2 in fl (m1 * 2 ^ nat (e1 - e) + m2 * 2 ^ nat (e2 - e)) e)"
| "b64_add _ _ = NonFinite"

fun b64_neg :: "float64 \<Rightarrow> float64" where
  "b64_neg (Float m e) = Float (- m) e"
| "b64_neg NonFinite = NonFinite"

definition b64_sub :: "float64 \<Rightarrow> float64 \<Rightarrow> float64" where
  "b64_sub x y = b64_add x (b64_neg y)"

fun b64_mul :: "float64 \<Rightarrow> float64 \<Rightarrow> float64" where
  "b64_mul (Float m1 e1) (Float m2 e2) = fl (m1 * m2) (e1 + e2)"
| "b64_mul _ _ = NonFinite"

fun b64_div :: "float64 \<Rightarrow> float64 \<Rightarrow> float64" where
  "b64_div (Float m1 e1) (Float m2 e2) =
     (if m2 = 0 then NonFinite
      else let d = nat \<bar>m2\<bar>;
               s = 55 + bitlen d;
               n = nat \<bar>m1\<bar> * 2 ^ s;
               q = 2 * (n div d) + (if n mod d = 0 then 0 else 1)
           in fl (sgn m1 * sgn m2 * int q) (e1 - e2 - int s - 1))"
| "b64_div _ _ = NonFinite"

fun b64_lt :: "float64 \<Rightarrow> float64 \<Rightarrow> bool" where
  "b64_lt (Float m1 e1) (Float m2 e2) =
     (let e = min e1 e2 in m1 * 2 ^ nat (e1 - e) < m2 * 2 ^ nat (e2 - e))"
| "b64_lt _ _ = False"

fun b64_abs :: "float64 \<Rightarrow> float64" where
  "b64_abs (Float m e) = Float \<bar>m\<bar> e"
| "b64_abs NonFinite = NonFinite"

fun b64_max :: "float64 \<Rightarrow> float64 \<Rightarrow> float64" where
  "b64_max (Float m1 e1) (Float m2 e2) =
     (if b64_lt (Float m1 e1) (Float m2 e2) then Float m2 e2 else Float m1 e1)"
| "b64_max _ _ = NonFinite"

fun value_of :: "float64 \<Rightarrow> real" where
  "value_of (Float m e) = (if 0 \<le> e then of_int m * 2 ^ nat e else of_int m / 2 ^ nat (- e))"
| "value_of NonFinite = 0"

definition b64_num :: "int \<Rightarrow> float64" where
  "b64_num n = fl n 0"

definition b64_dec :: "int \<Rightarrow> nat \<Rightarrow> float64" where
  "b64_dec m k = b64_div (fl m 0) (fl (10 ^ k) 0)"

definition b64_len :: "nat \<Rightarrow> float64" where
  "b64_len n = fl (int n) 0"

definition b64 :: "float64 arith" where
  "b64 = \<lparr>fadd = b64_add, fsub = b64_sub, fmul = b64_mul, fdiv = b64_div, fneg = b64_neg,
     fmax = b64_max, fabs = b64_abs, flt = b64_lt, fnum = b64_num, fdec = b64_dec, flen = b64_len\<rparr>"

subsection \<open>The exponential and the square root, for the examples\<close>

text \<open>
  Modelled from the spec: \<open>math.Exp\<close> and \<open>math.Sqrt\<close> are not part of the repository;
  the specification uses them as the exponential (section 4.4) and the square root
  (section 4.3). Every function that takes them is given them as a parameter. For the
  examples that run in binary64, \<open>exp64\<close> and \<open>sqrt64\<close> are the binary64 value nearest
  to the exponential and to the square root at the few arguments the examples pass
  (\<open>exp64_nearest\<close>, \<open>sqrt5_nearest\<close>); they are not specified at any other argument,
  where they are \<open>NonFinite\<close>, and no theorem uses them there.
\<close>

definition exp64 :: "float64 \<Rightarrow> float64" where
  "exp64 x =
     (if x = Float 0 0 then Float 1 0
      else if x = Float (- 1) (- 2) then Float 7014813832872459 (- 53)
      else if x = Float (- 1) (- 1) then Float 2731571253070597 (- 52)
      else if x = Float (- 1) 0 then Float 828390857088487 (- 51)
      else if x = Float (- 31) (- 4) then Float 5190440331575481 (- 55)
      else NonFinite)"

definition sqrt64 :: "float64 \<Rightarrow> float64" where
  "sqrt64 x = (if x = Float 5 0 then Float 629397181890197 (- 48) else NonFinite)"

section \<open>The array library, for the examples\<close>

text \<open>
  Modelled from the spec: element access into a dense matrix stored row by row, with
  its bounds check.
\<close>

definition rowmajor :: indexing where
  "rowmajor shape u c =
     (case shape of
        [rows, cols] \<Rightarrow>
          if 0 \<le> u \<and> u < rows \<and> 0 \<le> c \<and> c < cols then Some (nat (u * cols + c)) else None
      | _ \<Rightarrow> None)"

text \<open>
  Modelled from the spec: the library on matrices of one cell, where sum, product and
  transpose are operations on one number and the singular value decomposition of \<open>[x]\<close>
  is \<open>[1] * [|x|] * [sign x]\<close>. It serves the examples that run \<open>Respond\<close> to its end.
\<close>

definition one_cell :: "'f \<Rightarrow> 'f Array" where
  "one_cell x = \<lparr>Data = [x], Shape = [1, 1]\<rparr>"

definition scalar_of :: "'f Array \<Rightarrow> 'f option" where
  "scalar_of a = (case Data a of [x] \<Rightarrow> Some x | _ \<Rightarrow> None)"

definition scalar_gauss :: "'f arith \<Rightarrow> 'f gauss" where
  "scalar_gauss A =
     \<lparr>index = rowmajor,
      Sum = (\<lambda>a b. do { x \<leftarrow> scalar_of a; y \<leftarrow> scalar_of b; Some (one_cell (fadd A x y)) }),
      Scale = (\<lambda>a k. do { x \<leftarrow> scalar_of a; Some (one_cell (fmul A x k)) }),
      Product = (\<lambda>a b. do { x \<leftarrow> scalar_of a; y \<leftarrow> scalar_of b; Some (one_cell (fmul A x y)) }),
      Transpose = (\<lambda>a. do { x \<leftarrow> scalar_of a; Some (one_cell x) }),
      Diagonal = (\<lambda>s. case s of [x] \<Rightarrow> Some (one_cell x) | _ \<Rightarrow> None),
      SVD = (\<lambda>a. do {
               x \<leftarrow> scalar_of a;
               Some (one_cell (fnum A 1), \<lparr>Data = [fabs A x], Shape = [1]\<rparr>,
                     one_cell (if flt A x (fnum A 0) then fnum A (- 1) else fnum A 1))
             })\<rparr>"

section \<open>What the specification says\<close>

subsection \<open>Loss and gradient (specification, section 4.2)\<close>

text \<open>
  In exact arithmetic: the loss of one comparison \<open>(u, a, b)\<close> is
  \<open>max(0, 1 - (Current[u][a] - Current[u][b]))\<close>; the batch loss is the mean over the
  list; the gradient component of a cell is
  \<open>(loss with that cell raised by 0.0001 - loss) / 0.0001\<close>; the gradient has one
  component for each cell; the accelerated proximal step is the eight steps of
  section 4.3.
\<close>

definition pair_loss :: "indexing \<Rightarrow> real Array \<Rightarrow> real Query \<Rightarrow> real option" where
  "pair_loss ix x q =
     (case elem (Choices q) 0 of None \<Rightarrow> None | Some a \<Rightarrow>
      case cell ix x (User q) a of None \<Rightarrow> None | Some xa \<Rightarrow>
      case elem (Choices q) 1 of None \<Rightarrow> None | Some b \<Rightarrow>
      case cell ix x (User q) b of None \<Rightarrow> None | Some xb \<Rightarrow>
        Some (max 0 (1 - (xa - xb))))"

definition batch_loss :: "indexing \<Rightarrow> real Array \<Rightarrow> real Query list \<Rightarrow> real option" where
  "batch_loss ix x samps =
     map_option (\<lambda>ls. sum_list ls / real (length ls)) (those (map (pair_loss ix x) samps))"

definition perturbed :: "real Array \<Rightarrow> nat \<Rightarrow> real Array" where
  "perturbed x i = x\<lparr>Data := (Data x)[i := Data x ! i + 1 / 10000]\<rparr>"

definition finite_difference :: "indexing \<Rightarrow> real Array \<Rightarrow> real Query list \<Rightarrow> nat \<Rightarrow> real option" where
  "finite_difference ix x samps i =
     (case batch_loss ix (perturbed x i) samps of None \<Rightarrow> None | Some l1 \<Rightarrow>
      case batch_loss ix x samps of None \<Rightarrow> None | Some l0 \<Rightarrow>
        Some ((l1 - l0) / (1 / 10000)))"

definition numeric_gradient :: "indexing \<Rightarrow> real Array \<Rightarrow> real Query list \<Rightarrow> real Array option" where
  "numeric_gradient ix x samps =
     (if \<exists>d \<in> set (Shape x). d < 0 then None
      else map_option (\<lambda>g. \<lparr>Data = g, Shape = Shape x\<rparr>)
             (those (map (finite_difference ix x samps) [0..<nat (prod_list (Shape x))])))"

definition fista_step :: "real gauss \<Rightarrow> real Engine \<Rightarrow> real Engine option" where
  "fista_step L p =
     (let alphaNext = (1 + sqrt (1 + 4 * (Alpha p)\<^sup>2)) / 2 in
      do {
        G \<leftarrow> numeric_gradient (index L) (X p) (History p);
        sG \<leftarrow> Scale L G (- Nu p);
        M \<leftarrow> Sum L (Z p) sG;
        (U, S, V) \<leftarrow> SVD L M;
        let S1 = map (\<lambda>s. max 0 (s - Lambda p)) (Data S);
        D \<leftarrow> Diagonal L S1;
        UD \<leftarrow> Product L U D;
        Vt \<leftarrow> Transpose L V;
        current \<leftarrow> Product L UD Vt;
        let previous = X p;
        nP \<leftarrow> Scale L previous (- 1);
        dif \<leftarrow> Sum L current nP;
        ex \<leftarrow> Scale L dif ((Alpha p - 1) / alphaNext);
        momentum \<leftarrow> Sum L current ex;
        Some (p\<lparr>Xp := previous, X := current, Z := momentum, Alpha := alphaNext\<rparr>)
      })"

text \<open>
  In any arithmetic: the gradient component of the cell \<open>i\<close> as section 4.2 words it,
  the loss of the source with that single cell raised by \<open>0.0001\<close>, minus the loss of the
  source on the matrix as it is, divided by \<open>0.0001\<close>.
\<close>

definition single_cell_difference ::
  "'f arith \<Rightarrow> indexing \<Rightarrow> 'f Engine \<Rightarrow> 'f Query list \<Rightarrow> nat \<Rightarrow> 'f option" where
  "single_cell_difference A ix p samps i =
     (case hingeLoss A ix (set_cell p i (fadd A (Data (X p) ! i) (fdec A 1 4))) samps of
        None \<Rightarrow> None
      | Some l1 \<Rightarrow>
          (case hingeLoss A ix p samps of
             None \<Rightarrow> None
           | Some l0 \<Rightarrow> Some (fdiv A (fsub A l1 l0) (fdec A 1 4))))"

subsection \<open>Query generation (specification, section 4.4)\<close>

text \<open>
  The candidates \<open>(u, a, b)\<close> in the order of the three loops: every user \<open>u\<close> when the
  filter \<open>f\<close> is negative, the user \<open>f\<close> alone otherwise, and every ordered pair of
  distinct items. \<open>candidate\<close> is the query built for one of them, with its weight.
\<close>

definition eligible :: "int \<Rightarrow> int \<Rightarrow> int \<Rightarrow> (int \<times> int \<times> int) list" where
  "eligible users items f =
     concat (map (\<lambda>u. map (Pair u) (pairs items))
                 (filter (\<lambda>u. f < 0 \<or> f = u) [0..users - 1]))"

fun candidate :: "'f arith \<Rightarrow> ('f \<Rightarrow> 'f) \<Rightarrow> indexing \<Rightarrow> 'f Engine \<Rightarrow> int \<times> int \<times> int \<Rightarrow> 'f Query option" where
  "candidate A exp_f ix p (u, a, b) =
     (case cell ix (X p) u a of None \<Rightarrow> None | Some xa \<Rightarrow>
      case cell ix (X p) u b of None \<Rightarrow> None | Some xb \<Rightarrow>
        Some \<lparr>User = u, Choices = [a, b],
              weight = exp_f (fdiv A (fneg A (fabs A (fsub A xa xb))) (T p))\<rparr>)"

text \<open>
  The choice as the specification words it: walk the candidates accumulating their
  weights and return the first candidate whose cumulative weight exceeds the draw, which
  is \<open>r\<close> times the total weight. \<open>first_exceeding\<close> is that walk in a given arithmetic,
  with the weight accumulated so far; \<open>in_reals\<close> takes a binary64 candidate to the real
  number its weight stands for, so that the same rule can be read in the real numbers.
\<close>

fun first_exceeding :: "'f arith \<Rightarrow> 'f \<Rightarrow> 'f \<Rightarrow> 'f Query list \<Rightarrow> 'f Query option" where
  "first_exceeding A draw acc [] = None"
| "first_exceeding A draw acc (c # cs) =
     (let acc1 = fadd A acc (weight c)
      in if flt A draw acc1 then Some c else first_exceeding A draw acc1 cs)"

definition cumulative_choice :: "'f arith \<Rightarrow> 'f \<Rightarrow> 'f Query list \<Rightarrow> 'f Query option" where
  "cumulative_choice A r cs =
     first_exceeding A (fmul A r (foldl (fadd A) (fnum A 0) (map weight cs))) (fnum A 0) cs"

definition in_reals :: "float64 Query \<Rightarrow> real Query" where
  "in_reals c = \<lparr>User = User c, Choices = Choices c, weight = value_of (weight c)\<rparr>"

text \<open>
  The choice as the source makes it: \<open>left_of A draw cs j\<close> is what is left of the draw
  when the weights of the \<open>j\<close> candidates before the candidate \<open>j\<close> have been subtracted
  from it one after the other; the walk stops at the first candidate whose weight
  exceeds what is left. \<open>best_first\<close> is the candidate with its two items exchanged when
  the first is scored lower than the second.
\<close>

definition left_of :: "'f arith \<Rightarrow> 'f \<Rightarrow> 'f Query list \<Rightarrow> nat \<Rightarrow> 'f" where
  "left_of A draw cs j = foldl (fsub A) draw (map weight (take j cs))"

definition stops_at :: "'f arith \<Rightarrow> 'f \<Rightarrow> 'f Query list \<Rightarrow> nat \<Rightarrow> bool" where
  "stops_at A draw cs k \<longleftrightarrow>
     k < length cs \<and> flt A (left_of A draw cs k) (weight (cs ! k))
     \<and> (\<forall>j < k. \<not> flt A (left_of A draw cs j) (weight (cs ! j)))"

definition best_first :: "'f arith \<Rightarrow> indexing \<Rightarrow> 'f Engine \<Rightarrow> 'f Query \<Rightarrow> 'f Query option" where
  "best_first A ix p c =
     (case Choices c of
        [a, b] \<Rightarrow>
          (case cell ix (X p) (User c) a of None \<Rightarrow> None | Some xa \<Rightarrow>
           case cell ix (X p) (User c) b of None \<Rightarrow> None | Some xb \<Rightarrow>
             Some (if flt A xa xb then c\<lparr>Choices := [b, a]\<rparr> else c))
      | _ \<Rightarrow> None)"

section \<open>Example engines\<close>

text \<open>
  \<open>fresh12\<close> and \<open>fresh11\<close> are the engines \<open>NewEngine(1, 2)\<close> and \<open>NewEngine(1, 1)\<close> in exact
  arithmetic; \<open>ask u a b\<close> is the query of user \<open>u\<close> about the items \<open>a\<close> and \<open>b\<close>, and
  \<open>picked\<close> the query \<open>Generate\<close> returns on \<open>fresh12\<close> for the draw \<open>1/2\<close>;
  \<open>eighth12\<close> is a binary64 engine of one user and two items, with the scalars of
  \<open>NewEngine\<close>, whose current estimate of the first item is \<open>0.125\<close>, with one answered
  comparison in its history.
\<close>

definition fresh12 :: "real Engine" where
  "fresh12 =
     \<lparr>X = \<lparr>Data = [0, 0], Shape = [1, 2]\<rparr>, Xp = \<lparr>Data = [0, 0], Shape = [1, 2]\<rparr>,
      Z = \<lparr>Data = [0, 0], Shape = [1, 2]\<rparr>, Nu = 1, Alpha = 1, Lambda = 4 / 100, T = 1,
      History = []\<rparr>"

definition fresh11 :: "real Engine" where
  "fresh11 =
     \<lparr>X = \<lparr>Data = [0], Shape = [1, 1]\<rparr>, Xp = \<lparr>Data = [0], Shape = [1, 1]\<rparr>,
      Z = \<lparr>Data = [0], Shape = [1, 1]\<rparr>, Nu = 1, Alpha = 1, Lambda = 4 / 100, T = 1,
      History = []\<rparr>"

definition ask :: "int \<Rightarrow> int \<Rightarrow> int \<Rightarrow> real Query" where
  "ask u a b = \<lparr>User = u, Choices = [a, b], weight = 0\<rparr>"

definition picked :: "real Query" where
  "picked = \<lparr>User = 0, Choices = [1, 0], weight = 1\<rparr>"

definition eighth12 :: "float64 Engine" where
  "eighth12 =
     \<lparr>X = \<lparr>Data = [Float 1 (- 3), Float 0 0], Shape = [1, 2]\<rparr>,
      Xp = \<lparr>Data = [Float 0 0, Float 0 0], Shape = [1, 2]\<rparr>,
      Z = \<lparr>Data = [Float 0 0, Float 0 0], Shape = [1, 2]\<rparr>,
      Nu = Float 1 0, Alpha = Float 1 0, Lambda = Float 5764607523034235 (- 57),
      T = Float 1 0,
      History = [\<lparr>User = 0, Choices = [0, 1], weight = Float 0 0\<rparr>]\<rparr>"

text \<open>
  The other binary64 engines have the scalars of \<open>NewEngine\<close> too. \<open>tenth12\<close> has the
  current estimates \<open>0.125\<close> and \<open>0.1\<close> and one answered comparison. \<open>eighth11\<close> has one user
  and one item, estimated at \<open>0.125\<close>, with the momentum at \<open>0.125\<close> as well, and
  \<open>same_item\<close> is the only comparison its validation admits. \<open>quarters13\<close>,
  \<open>sixteenths13\<close> and \<open>thousand12\<close> are engines of one user whose estimates are
  \<open>0, 0.25, 0.5\<close>, then \<open>0, 0, 1.9375\<close>, then \<open>0, 1000\<close>; \<open>quarters13_candidates\<close> are the six
  candidates of \<open>quarters13\<close> in the order of the loops, with their weights \<open>exp(-0.25)\<close>
  and \<open>exp(-0.5)\<close>. \<open>halves23\<close> has two users, with the estimates \<open>0, 0, 0.5\<close> and
  \<open>0, 1, 0.5\<close>, and \<open>halves23_candidates\<close> are its twelve candidates.
\<close>

definition eighth11 :: "float64 Engine" where
  "eighth11 =
     \<lparr>X = \<lparr>Data = [Float 1 (- 3)], Shape = [1, 1]\<rparr>,
      Xp = \<lparr>Data = [Float 0 0], Shape = [1, 1]\<rparr>,
      Z = \<lparr>Data = [Float 1 (- 3)], Shape = [1, 1]\<rparr>,
      Nu = Float 1 0, Alpha = Float 1 0, Lambda = Float 5764607523034235 (- 57),
      T = Float 1 0, History = []\<rparr>"

definition same_item :: "float64 Query" where
  "same_item = \<lparr>User = 0, Choices = [0, 0], weight = Float 0 0\<rparr>"

definition tenth12 :: "float64 Engine" where
  "tenth12 =
     \<lparr>X = \<lparr>Data = [Float 1 (- 3), Float 3602879701896397 (- 55)], Shape = [1, 2]\<rparr>,
      Xp = \<lparr>Data = [Float 0 0, Float 0 0], Shape = [1, 2]\<rparr>,
      Z = \<lparr>Data = [Float 0 0, Float 0 0], Shape = [1, 2]\<rparr>,
      Nu = Float 1 0, Alpha = Float 1 0, Lambda = Float 5764607523034235 (- 57),
      T = Float 1 0,
      History = [\<lparr>User = 0, Choices = [0, 1], weight = Float 0 0\<rparr>]\<rparr>"

definition quarters13 :: "float64 Engine" where
  "quarters13 =
     \<lparr>X = \<lparr>Data = [Float 0 0, Float 1 (- 2), Float 1 (- 1)], Shape = [1, 3]\<rparr>,
      Xp = \<lparr>Data = [Float 0 0, Float 0 0, Float 0 0], Shape = [1, 3]\<rparr>,
      Z = \<lparr>Data = [Float 0 0, Float 0 0, Float 0 0], Shape = [1, 3]\<rparr>,
      Nu = Float 1 0, Alpha = Float 1 0, Lambda = Float 5764607523034235 (- 57),
      T = Float 1 0, History = []\<rparr>"

definition quarters13_candidates :: "float64 Query list" where
  "quarters13_candidates =
     [\<lparr>User = 0, Choices = [0, 1], weight = Float 7014813832872459 (- 53)\<rparr>,
      \<lparr>User = 0, Choices = [0, 2], weight = Float 2731571253070597 (- 52)\<rparr>,
      \<lparr>User = 0, Choices = [1, 0], weight = Float 7014813832872459 (- 53)\<rparr>,
      \<lparr>User = 0, Choices = [1, 2], weight = Float 7014813832872459 (- 53)\<rparr>,
      \<lparr>User = 0, Choices = [2, 0], weight = Float 2731571253070597 (- 52)\<rparr>,
      \<lparr>User = 0, Choices = [2, 1], weight = Float 7014813832872459 (- 53)\<rparr>]"

definition sixteenths13 :: "float64 Engine" where
  "sixteenths13 =
     \<lparr>X = \<lparr>Data = [Float 0 0, Float 0 0, Float 31 (- 4)], Shape = [1, 3]\<rparr>,
      Xp = \<lparr>Data = [Float 0 0, Float 0 0, Float 0 0], Shape = [1, 3]\<rparr>,
      Z = \<lparr>Data = [Float 0 0, Float 0 0, Float 0 0], Shape = [1, 3]\<rparr>,
      Nu = Float 1 0, Alpha = Float 1 0, Lambda = Float 5764607523034235 (- 57),
      T = Float 1 0, History = []\<rparr>"

definition thousand12 :: "float64 Engine" where
  "thousand12 =
     \<lparr>X = \<lparr>Data = [Float 0 0, Float 125 3], Shape = [1, 2]\<rparr>,
      Xp = \<lparr>Data = [Float 0 0, Float 0 0], Shape = [1, 2]\<rparr>,
      Z = \<lparr>Data = [Float 0 0, Float 0 0], Shape = [1, 2]\<rparr>,
      Nu = Float 1 0, Alpha = Float 1 0, Lambda = Float 5764607523034235 (- 57),
      T = Float 1 0, History = []\<rparr>"

definition halves23 :: "float64 Engine" where
  "halves23 =
     \<lparr>X = \<lparr>Data = [Float 0 0, Float 0 0, Float 1 (- 1), Float 0 0, Float 1 0, Float 1 (- 1)],
           Shape = [2, 3]\<rparr>,
      Xp = \<lparr>Data = [Float 0 0, Float 0 0, Float 0 0, Float 0 0, Float 0 0, Float 0 0],
            Shape = [2, 3]\<rparr>,
      Z = \<lparr>Data = [Float 0 0, Float 0 0, Float 0 0, Float 0 0, Float 0 0, Float 0 0],
           Shape = [2, 3]\<rparr>,
      Nu = Float 1 0, Alpha = Float 1 0, Lambda = Float 5764607523034235 (- 57),
      T = Float 1 0, History = []\<rparr>"

definition halves23_candidates :: "float64 Query list" where
  "halves23_candidates =
     [\<lparr>User = 0, Choices = [0, 1], weight = Float 1 0\<rparr>,
      \<lparr>User = 0, Choices = [0, 2], weight = Float 2731571253070597 (- 52)\<rparr>,
      \<lparr>User = 0, Choices = [1, 0], weight = Float 1 0\<rparr>,
      \<lparr>User = 0, Choices = [1, 2], weight = Float 2731571253070597 (- 52)\<rparr>,
      \<lparr>User = 0, Choices = [2, 0], weight = Float 2731571253070597 (- 52)\<rparr>,
      \<lparr>User = 0, Choices = [2, 1], weight = Float 2731571253070597 (- 52)\<rparr>,
      \<lparr>User = 1, Choices = [0, 1], weight = Float 828390857088487 (- 51)\<rparr>,
      \<lparr>User = 1, Choices = [0, 2], weight = Float 2731571253070597 (- 52)\<rparr>,
      \<lparr>User = 1, Choices = [1, 0], weight = Float 828390857088487 (- 51)\<rparr>,
      \<lparr>User = 1, Choices = [1, 2], weight = Float 2731571253070597 (- 52)\<rparr>,
      \<lparr>User = 1, Choices = [2, 0], weight = Float 2731571253070597 (- 52)\<rparr>,
      \<lparr>User = 1, Choices = [2, 1], weight = Float 2731571253070597 (- 52)\<rparr>]"

declare bitlen.simps [simp del] strip.simps [simp del] b64_add.simps [simp del]
  b64_mul.simps [simp del] b64_div.simps [simp del] b64_lt.simps [simp del]
  b64_max.simps [simp del]

section \<open>Evaluating the arithmetics\<close>

lemma exact_sel:
  "fadd exact = (+)" "fsub exact = (-)" "fmul exact = (*)" "fdiv exact = (/)"
  "fneg exact = uminus" "fmax exact = max" "fabs exact = abs" "flt exact = (<)"
  "fnum exact = of_int" "fdec exact = (\<lambda>m k. of_int m / 10 ^ k)" "flen exact = of_nat"
  by (simp_all add: exact_def)

lemma b64_sel:
  "fadd b64 = b64_add" "fsub b64 = b64_sub" "fmul b64 = b64_mul" "fdiv b64 = b64_div"
  "fneg b64 = b64_neg" "fmax b64 = b64_max" "fabs b64 = b64_abs" "flt b64 = b64_lt"
  "fnum b64 = b64_num" "fdec b64 = b64_dec" "flen b64 = b64_len"
  by (simp_all add: b64_def)

text \<open>
  Rules that unfold the rounding on numerals only, so that the simplifier computes with
  them and never unfolds a recursion on a variable.
\<close>

lemma bitlen_0: "bitlen 0 = 0"
  by (simp add: bitlen.simps)

lemma bitlen_1: "bitlen (Suc 0) = Suc 0"
  by (simp add: bitlen.simps [of "Suc 0"] bitlen.simps [of 0])

lemma bitlen_numeral: "bitlen (numeral n) = Suc (bitlen (numeral n div 2))"
  by (subst bitlen.simps) simp

lemma strip_0: "strip 0 e = (0, 0)"
  by (simp add: strip.simps)

lemma strip_1: "strip (Suc 0) e = (Suc 0, e)"
  by (simp add: strip.simps [of "Suc 0"])

lemma strip_numeral:
  "strip (numeral n) e =
     (if even (numeral n :: nat) then strip (numeral n div 2) (e + 1) else (numeral n, e))"
  by (subst strip.simps) simp

lemma rne_numeral:
  "rne (numeral n) k =
     (if 2 * (numeral n mod 2 ^ k) < (2::nat) ^ k then numeral n div 2 ^ k
      else if 2 * (numeral n mod 2 ^ k) > (2::nat) ^ k then numeral n div 2 ^ k + 1
      else if even (numeral n div (2::nat) ^ k) then numeral n div 2 ^ k
      else numeral n div 2 ^ k + 1)"
  by (simp add: rne_def Let_def)

lemma rne_small: "rne 0 k = 0" "rne (Suc 0) 0 = Suc 0"
  by (simp_all add: rne_def)

lemma fl_0: "fl 0 e = Float 0 0"
  by (simp add: fl_def bitlen_0 rne_small strip_0)

lemma fl_1: "fl 1 e = Float 1 e"
  by (simp add: fl_def rne_def bitlen.simps [of "Suc 0"] bitlen.simps [of 0] strip.simps [of "Suc 0"])

lemma fl_neg_1: "fl (- 1) e = Float (- 1) e"
  by (simp add: fl_def rne_def bitlen.simps [of "Suc 0"] bitlen.simps [of 0] strip.simps [of "Suc 0"])

lemma fl_numeral:
  "fl (numeral n) e =
     (case strip (rne (numeral n) (bitlen (numeral n) - 53)) (e + int (bitlen (numeral n) - 53)) of
        (n1, e1) \<Rightarrow> Float (int n1) e1)"
  by (simp add: fl_def Let_def)

lemma fl_neg_numeral:
  "fl (- numeral n) e =
     (case strip (rne (numeral n) (bitlen (numeral n) - 53)) (e + int (bitlen (numeral n) - 53)) of
        (n1, e1) \<Rightarrow> Float (- int n1) e1)"
  by (simp add: fl_def Let_def)

lemmas b64_eval = bitlen_0 bitlen_1 bitlen_numeral strip_0 strip_1 strip_numeral rne_numeral
  rne_small fl_0 fl_1 fl_neg_1 fl_numeral fl_neg_numeral Let_def b64_sub_def b64_num_def
  b64_dec_def b64_len_def b64_add.simps b64_mul.simps b64_div.simps b64_lt.simps b64_max.simps

text \<open>
  The constant \<open>0.0001\<close> is the binary64 value \<open>7378697629483821 * 2^-66\<close>. Adding it to
  \<open>0.125\<close> gives \<open>563400313384049 * 2^-52\<close> (the sum has 64 significant bits and is rounded
  to 53); taking it away again gives \<open>(2^53 - 1) * 2^-56\<close>, the binary64 value just below
  \<open>0.125\<close>.
\<close>

lemma eps_val: "b64_dec 1 4 = Float 7378697629483821 (- 66)"
  by (simp add: b64_eval)

lemma zero_val: "b64_num 0 = Float 0 0"
  by (simp add: b64_eval)

lemma up0: "b64_add (Float 1 (- 3)) (Float 7378697629483821 (- 66)) = Float 563400313384049 (- 52)"
  by (simp add: b64_eval)

lemma down0: "b64_sub (Float 563400313384049 (- 52)) (Float 7378697629483821 (- 66)) = Float 9007199254740991 (- 56)"
  by (simp add: b64_eval)

lemma up1: "b64_add (Float 0 0) (Float 7378697629483821 (- 66)) = Float 7378697629483821 (- 66)"
  by (simp add: b64_eval)

lemma down1: "b64_sub (Float 7378697629483821 (- 66)) (Float 7378697629483821 (- 66)) = Float 0 0"
  by (simp add: b64_eval)

lemma lambda_val: "b64_dec 4 2 = Float 5764607523034235 (- 57)"
  by (simp add: b64_eval)

text \<open>
  Both results are the correctly rounded ones: each has fewer than 53 significant bits
  and lies within less than half a unit in its last place of the exact result (the
  unit is \<open>2^-55\<close> between \<open>1/8\<close> and \<open>1/4\<close>, and \<open>2^-56\<close> between \<open>1/16\<close> and \<open>1/8\<close>). The exact
  difference is \<open>1/8 - 813 * 2^-66\<close>, nearer to \<open>1/8 - 2^-56\<close> than to \<open>1/8\<close>.
\<close>

lemma up0_nearest:
  "\<bar>value_of (Float 563400313384049 (- 52))
      - (value_of (Float 1 (- 3)) + value_of (Float 7378697629483821 (- 66)))\<bar> < 1 / 2 ^ 56
   \<and> (563400313384049 :: int) < 2 ^ 53"
  by simp

lemma down0_nearest:
  "\<bar>value_of (Float 9007199254740991 (- 56))
      - (value_of (Float 563400313384049 (- 52)) - value_of (Float 7378697629483821 (- 66)))\<bar>
     < 1 / 2 ^ 57
   \<and> (9007199254740991 :: int) < 2 ^ 53
   \<and> value_of (Float 9007199254740991 (- 56)) < value_of (Float 1 (- 3))"
  by simp

text \<open>The example engines are the ones \<open>NewEngine\<close> makes.\<close>

lemma fresh12_new: "NewEngine exact 1 2 = Some fresh12"
  by (simp add: NewEngine_def Zero_def exact_sel fresh12_def numeral_2_eq_2)

lemma fresh11_new: "NewEngine exact 1 1 = Some fresh11"
  by (simp add: NewEngine_def Zero_def exact_sel fresh11_def)

lemma eighth12_scalars:
  "NewEngine b64 1 2 = Some (eighth12\<lparr>X := Z eighth12, History := []\<rparr>)"
  by (simp add: NewEngine_def Zero_def b64_sel eighth12_def numeral_2_eq_2 zero_val lambda_val)
     (simp add: b64_eval)

text \<open>The literals of the source and the decimal \<open>0.1\<close>.\<close>

lemma nums:
  "b64_num 1 = Float 1 0" "b64_num 2 = Float 1 1" "b64_num 4 = Float 1 2"
  "b64_num (- 1) = Float (- 1) 0" "b64_len (Suc 0) = Float 1 0"
  by (simp_all add: b64_eval)

lemma tenth_val: "b64_dec 1 1 = Float 3602879701896397 (- 55)"
  by (simp add: b64_eval)

subsection \<open>The order of binary64 values\<close>

text \<open>
  On finite values \<open><\<close> is the order of the real numbers they stand for, and it is
  asymmetric on all values.
\<close>

lemma b64_lt_asym: "b64_lt x y \<Longrightarrow> \<not> b64_lt y x"
  by (cases x; cases y) (auto simp: b64_lt.simps Let_def min.commute)

lemma value_of_powr: "value_of (Float m e) = of_int m * 2 powr (of_int e)"
proof (cases "0 \<le> e")
  case True
  then have "(2 :: real) powr (of_int e) = 2 ^ nat e"
    by (simp add: powr_realpow [symmetric])
  with True show ?thesis by simp
next
  case False
  then have "(2 :: real) powr (of_int e) = 1 / 2 ^ nat (- e)"
    by (simp add: powr_minus_divide [of 2 "of_int (- e)", simplified] powr_realpow [symmetric])
  with False show ?thesis by simp
qed

lemma scaled_powr:
  assumes "e \<le> e1"
  shows "real_of_int (m * 2 ^ nat (e1 - e)) * 2 powr (of_int e) = of_int m * 2 powr (of_int e1)"
proof -
  have "(2 :: real) ^ nat (e1 - e) = 2 powr (of_int (e1 - e))"
    using assms by (simp add: powr_realpow [symmetric])
  then have "real_of_int (m * 2 ^ nat (e1 - e)) * 2 powr (of_int e)
      = of_int m * (2 powr (of_int (e1 - e)) * 2 powr (of_int e))"
    by simp
  also have "2 powr (of_int (e1 - e)) * 2 powr (of_int e) = (2 :: real) powr (of_int e1)"
    by (simp add: powr_add [symmetric])
  finally show ?thesis .
qed

lemma b64_lt_value_of:
  "b64_lt (Float m1 e1) (Float m2 e2) \<longleftrightarrow> value_of (Float m1 e1) < value_of (Float m2 e2)"
proof -
  define e where "e = min e1 e2"
  have e: "e \<le> e1" "e \<le> e2" by (simp_all add: e_def)
  have pos: "(0 :: real) < 2 powr (of_int e)" by simp
  have "b64_lt (Float m1 e1) (Float m2 e2)
      \<longleftrightarrow> m1 * 2 ^ nat (e1 - e) < m2 * 2 ^ nat (e2 - e)"
    by (simp add: b64_lt.simps Let_def e_def)
  also have "\<dots> \<longleftrightarrow> real_of_int (m1 * 2 ^ nat (e1 - e)) < real_of_int (m2 * 2 ^ nat (e2 - e))"
    by (simp only: of_int_less_iff)
  also have "\<dots> \<longleftrightarrow> real_of_int (m1 * 2 ^ nat (e1 - e)) * 2 powr (of_int e)
                      < real_of_int (m2 * 2 ^ nat (e2 - e)) * 2 powr (of_int e)"
    using pos by (simp only: mult_less_cancel_right_pos)
  also have "\<dots> \<longleftrightarrow> value_of (Float m1 e1) < value_of (Float m2 e2)"
    by (simp only: scaled_powr [OF e(1)] scaled_powr [OF e(2)] value_of_powr)
  finally show ?thesis .
qed

lemma b64_finite_order:
  assumes "NonFinite \<notin> set d"
  shows "\<forall>x \<in> set d. \<forall>y \<in> set d. flt b64 x y \<longleftrightarrow> value_of x < value_of y"
proof (intro ballI)
  fix x y assume "x \<in> set d" "y \<in> set d"
  with assms have "x \<noteq> NonFinite" "y \<noteq> NonFinite" by auto
  then obtain m1 e1 m2 e2 where "x = Float m1 e1" "y = Float m2 e2"
    by (cases x; cases y) auto
  then show "flt b64 x y \<longleftrightarrow> value_of x < value_of y"
    by (simp only: b64_sel b64_lt_value_of)
qed

subsection \<open>The values of the exponential and of the square root\<close>

text \<open>
  \<open>sqrt64 5\<close> is \<open>m * 2^-48\<close> with \<open>(m - 1/2)^2 < 5 * 2^96 < (m + 1/2)^2\<close>: the binary64 value
  nearest to the square root of five. Each value of \<open>exp64\<close> has at most 53 significant
  bits and lies within less than half a unit in its last place of the exponential, by
  the Maclaurin series with its remainder.
\<close>

lemma sqrt5_nearest:
  "(2 * 629397181890197 - 1)\<^sup>2 < (5 * 2 ^ 98 :: int) \<and> (5 * 2 ^ 98 :: int) < (2 * 629397181890197 + 1)\<^sup>2"
  by simp

lemma exp64_val:
  "exp64 (Float 0 0) = Float 1 0"
  "exp64 (Float (- 1) (- 2)) = Float 7014813832872459 (- 53)"
  "exp64 (Float (- 1) (- 1)) = Float 2731571253070597 (- 52)"
  "exp64 (Float (- 1) 0) = Float 828390857088487 (- 51)"
  "exp64 (Float (- 31) (- 4)) = Float 5190440331575481 (- 55)"
  by (simp_all add: exp64_def)

lemma exp_enclosure:
  assumes "\<bar>x\<bar> \<le> (2 :: real)"
  shows "\<bar>exp x - (\<Sum>m<n. x ^ m / fact m)\<bar> \<le> 9 * \<bar>x\<bar> ^ n / fact n"
proof -
  from Maclaurin_exp_le [of x n] obtain t where
    t: "\<bar>t\<bar> \<le> \<bar>x\<bar>" and e: "exp x = (\<Sum>m<n. x ^ m / fact m) + exp t / fact n * x ^ n"
    by blast
  have "exp t \<le> exp 2" using t assms by simp
  also have "exp (2 :: real) = exp 1 * exp 1" by (simp add: exp_add [symmetric])
  also have "\<dots> \<le> 3 * 3" by (intro mult_mono exp_le) simp_all
  finally have b: "exp t \<le> 9" by simp
  have "\<bar>exp x - (\<Sum>m<n. x ^ m / fact m)\<bar> = exp t * \<bar>x\<bar> ^ n / fact n"
    by (simp add: e abs_mult power_abs)
  also have "\<dots> \<le> 9 * \<bar>x\<bar> ^ n / fact n"
    using b by (intro divide_right_mono mult_right_mono) simp_all
  finally show ?thesis .
qed

lemma exp_sums:
  "9 * \<bar>- 1 / 4 :: real\<bar> ^ 20 / fact 20
     + \<bar>(\<Sum>m<20. (- 1 / 4 :: real) ^ m / fact m) - 7014813832872459 / 2 ^ 53\<bar> < 1 / 2 ^ 54"
  "9 * \<bar>- 1 / 2 :: real\<bar> ^ 24 / fact 24
     + \<bar>(\<Sum>m<24. (- 1 / 2 :: real) ^ m / fact m) - 2731571253070597 / 2 ^ 52\<bar> < 1 / 2 ^ 54"
  "9 * \<bar>- 31 / 16 :: real\<bar> ^ 36 / fact 36
     + \<bar>(\<Sum>m<36. (- 31 / 16 :: real) ^ m / fact m) - 5190440331575481 / 2 ^ 55\<bar> < 1 / 2 ^ 56"
  "9 * \<bar>- 1 :: real\<bar> ^ 30 / fact 30
     + \<bar>(\<Sum>m<30. (- 1 :: real) ^ m / fact m) - 828390857088487 / 2 ^ 51\<bar> < 1 / 2 ^ 55"
  by (simp_all add: eval_nat_numeral sum.lessThan_Suc)

lemma exp64_nearest:
  "\<bar>exp (value_of (Float (- 1) (- 2))) - value_of (exp64 (Float (- 1) (- 2)))\<bar> < 1 / 2 ^ 54"
  "\<bar>exp (value_of (Float (- 1) (- 1))) - value_of (exp64 (Float (- 1) (- 1)))\<bar> < 1 / 2 ^ 54"
  "\<bar>exp (value_of (Float (- 31) (- 4))) - value_of (exp64 (Float (- 31) (- 4)))\<bar> < 1 / 2 ^ 56"
  "\<bar>exp (value_of (Float (- 1) 0)) - value_of (exp64 (Float (- 1) 0))\<bar> < 1 / 2 ^ 55"
  "exp (value_of (Float 0 0)) = value_of (exp64 (Float 0 0))"
proof -
  have d: "\<bar>exp (- 1 :: real) - 828390857088487 / 2 ^ 51\<bar> < 1 / 2 ^ 55"
    using exp_enclosure [of "- 1" 30] exp_sums(4) by linarith
  have a: "\<bar>exp (- 1 / 4 :: real) - 7014813832872459 / 2 ^ 53\<bar> < 1 / 2 ^ 54"
    using exp_enclosure [of "- 1 / 4" 20] exp_sums(1) by linarith
  have b: "\<bar>exp (- 1 / 2 :: real) - 2731571253070597 / 2 ^ 52\<bar> < 1 / 2 ^ 54"
    using exp_enclosure [of "- 1 / 2" 24] exp_sums(2) by linarith
  have c: "\<bar>exp (- 31 / 16 :: real) - 5190440331575481 / 2 ^ 55\<bar> < 1 / 2 ^ 56"
    using exp_enclosure [of "- 31 / 16" 36] exp_sums(3) by linarith
  from a show "\<bar>exp (value_of (Float (- 1) (- 2))) - value_of (exp64 (Float (- 1) (- 2)))\<bar> < 1 / 2 ^ 54"
    by (simp add: exp64_val)
  from b show "\<bar>exp (value_of (Float (- 1) (- 1))) - value_of (exp64 (Float (- 1) (- 1)))\<bar> < 1 / 2 ^ 54"
    by (simp add: exp64_val)
  from c show "\<bar>exp (value_of (Float (- 31) (- 4))) - value_of (exp64 (Float (- 31) (- 4)))\<bar> < 1 / 2 ^ 56"
    by (simp add: exp64_val)
  from d show "\<bar>exp (value_of (Float (- 1) 0)) - value_of (exp64 (Float (- 1) 0))\<bar> < 1 / 2 ^ 55"
    by (simp add: exp64_val)
  show "exp (value_of (Float 0 0)) = value_of (exp64 (Float 0 0))"
    by (simp add: exp64_val)
qed

section \<open>Respond: validation\<close>

lemma check_choices_shape:
  assumes "Shape x = [users, items]"
  shows "check_choices x cs =
     (if \<exists>c \<in> set cs. c < 0 \<or> items \<le> c
      then Some (Some (ChoiceOutOfRange (hd (filter (\<lambda>c. c < 0 \<or> items \<le> c) cs)) items))
      else Some None)"
  using assms by (induction cs) (auto simp: elem_def)

text \<open>
  Claim C2. On an engine of \<open>users\<close> by \<open>items\<close>, a query whose \<open>Choices\<close> do not have
  exactly two entries, or whose user is outside \<open>[0, users)\<close>, or one of whose choices is
  outside \<open>[0, items)\<close>, makes \<open>Respond\<close> return an error with the engine as it was; and
  whenever \<open>Respond\<close> returns an error, for whatever arithmetic and library, the engine
  is as it was: the history is extended and the matrices are updated only after the
  last check.
\<close>

theorem Respond_invalid_unchanged:
  assumes "Shape (X p) = [users, items]"
  shows "(length (Choices q) \<noteq> 2 \<or> User q < 0 \<or> users \<le> User q
            \<or> (\<exists>c \<in> set (Choices q). c < 0 \<or> items \<le> c)
          \<longrightarrow> (\<exists>e. Respond A sqrt_f L p q = Some (Some e, p)))
       \<and> (\<forall>e p'. Respond A sqrt_f L p q = Some (Some e, p') \<longrightarrow> p' = p)"
  using assms
  by (auto simp: Respond_def elem_def check_choices_shape Let_def split: option.splits if_splits)

lemma Respond_far:
  "Respond exact sqrt (scalar_gauss exact) fresh12 (ask 5 0 1)
     = Some (Some (UserOutOfRange 5 1), fresh12)"
  by (simp add: Respond_def elem_def fresh12_def ask_def)

theorem Respond_invalid_unchanged_witness:
  "Shape (X fresh12) = [1, 2] \<and> 1 \<le> User (ask 5 0 1)
   \<and> (\<exists>e. Respond exact sqrt (scalar_gauss exact) fresh12 (ask 5 0 1) = Some (Some e, fresh12))
   \<and> Respond exact sqrt (scalar_gauss exact) fresh12 (ask 5 0 1)
       = Some (Some (UserOutOfRange 5 1), fresh12)"
proof -
  have s: "Shape (X fresh12) = [1, 2]" by (simp add: fresh12_def)
  have u: "1 \<le> User (ask 5 0 1)" by (simp add: ask_def)
  from Respond_invalid_unchanged
    [OF s, where q = "ask 5 0 1" and A = exact and sqrt_f = sqrt and L = "scalar_gauss exact"] u
  have "\<exists>e. Respond exact sqrt (scalar_gauss exact) fresh12 (ask 5 0 1) = Some (Some e, fresh12)"
    by blast
  with s u Respond_far show ?thesis by blast
qed

section \<open>Loss and gradient\<close>

lemma those_eq_Some: "those zs = Some ys \<longleftrightarrow> zs = map Some ys"
  by (induction zs arbitrary: ys) (auto split: option.splits)

lemma those_length: "those xs = Some ys \<Longrightarrow> length ys = length xs"
  by (induction xs arbitrary: ys) (auto split: option.splits)

lemma loss_loop_exact:
  "loss_loop exact ix x s samps =
     map_option (\<lambda>ls. s + sum_list ls) (those (map (pair_loss ix x) samps))"
proof (induction samps arbitrary: s)
  case Nil
  show ?case by simp
next
  case (Cons q samps)
  show ?case
    by (simp add: Cons.IH pair_loss_def exact_sel max.commute option.map_comp comp_def
        add.assoc split: option.splits)
qed

lemma hingeLoss_exact: "hingeLoss exact ix p samps = batch_loss ix (X p) samps"
  by (auto simp: hingeLoss_def batch_loss_def loss_loop_exact exact_sel
      dest: those_length split: option.splits)

lemma X_set_cell: "X (set_cell p i v) = (X p)\<lparr>Data := (Data (X p))[i := v]\<rparr>"
  by (simp add: set_cell_def)

text \<open>
  The state the loop of \<open>gradientLoss\<close> leaves, for any arithmetic: every cell it has
  visited holds \<open>(x + 0.0001) - 0.0001\<close>, computed in that arithmetic, where it held \<open>x\<close>.
\<close>

lemma grad_loop_state:
  assumes "grad_loop A ix before samps js result p = Some (g, p')"
  shows "p' = p\<lparr>X := (X p)\<lparr>Data :=
           foldl (\<lambda>d j. d[j := fsub A (fadd A (d ! j) (fdec A 1 4)) (fdec A 1 4)])
             (Data (X p)) js\<rparr>\<rparr>"
  using assms
proof (induction js arbitrary: result p)
  case Nil
  then show ?case by simp
next
  case (Cons i js)
  from Cons.prems have i: "i < length (Data (X p))"
    by (simp split: if_splits)
  define p1 where "p1 = set_cell p i (fadd A (Data (X p) ! i) (fdec A 1 4))"
  define p2 where "p2 = set_cell p1 i (fsub A (Data (X p1) ! i) (fdec A 1 4))"
  from Cons.prems i obtain result1 where
    "grad_loop A ix before samps js result1 p2 = Some (g, p')"
    by (auto simp: Let_def p1_def p2_def split: option.splits)
  from Cons.IH [OF this] have "p' = p2\<lparr>X := (X p2)\<lparr>Data :=
           foldl (\<lambda>d j. d[j := fsub A (fadd A (d ! j) (fdec A 1 4)) (fdec A 1 4)])
             (Data (X p2)) js\<rparr>\<rparr>" .
  moreover have "p2 = p\<lparr>X := (X p)\<lparr>Data :=
      (Data (X p))[i := fsub A (fadd A (Data (X p) ! i) (fdec A 1 4)) (fdec A 1 4)]\<rparr>\<rparr>"
    using i by (simp add: p2_def p1_def set_cell_def)
  ultimately show ?case by simp
qed

lemma grad_loop_exact:
  assumes "grad_loop exact ix before samps js result p = Some (g, p')"
    and "\<forall>j \<in> set js. j < length (Data result)"
    and "distinct js"
  shows "p' = p \<and> Shape g = Shape result \<and> length (Data g) = length (Data result)
       \<and> (\<forall>j \<in> set js. Some (Data g ! j) =
             map_option (\<lambda>l. (l - before) / (1 / 10000))
               (batch_loss ix (perturbed (X p) j) samps))
       \<and> (\<forall>j. j \<notin> set js \<longrightarrow> Data g ! j = Data result ! j)"
  using assms
proof (induction js arbitrary: result)
  case Nil
  then show ?case by simp
next
  case (Cons i js)
  from Cons.prems(1) have i: "i < length (Data (X p))"
    by (simp split: if_splits)
  define p1 where "p1 = set_cell p i (Data (X p) ! i + 1 / 10000)"
  from Cons.prems(1) i obtain l where
    l: "hingeLoss exact ix p1 samps = Some l"
    by (auto simp: p1_def exact_sel Let_def split: option.splits)
  define result1 where "result1 = result\<lparr>Data := (Data result)[i := (l - before) / (1 / 10000)]\<rparr>"
  have p2: "set_cell p1 i (Data (X p1) ! i - 1 / 10000) = p"
    using i by (simp add: p1_def set_cell_def)
  have rec: "grad_loop exact ix before samps js result1 p = Some (g, p')"
    using Cons.prems(1) i l p2
    by (simp add: exact_sel Let_def p1_def [symmetric] result1_def)
  have "\<forall>j \<in> set js. j < length (Data result1)"
    using Cons.prems(2) by (simp add: result1_def)
  moreover have "distinct js" using Cons.prems(3) by simp
  ultimately have IH:
    "p' = p" "Shape g = Shape result1" "length (Data g) = length (Data result1)"
    "\<forall>j \<in> set js. Some (Data g ! j) =
        map_option (\<lambda>l. (l - before) / (1 / 10000)) (batch_loss ix (perturbed (X p) j) samps)"
    "\<forall>j. j \<notin> set js \<longrightarrow> Data g ! j = Data result1 ! j"
    using Cons.IH [OF rec] by auto
  have inot: "i \<notin> set js" using Cons.prems(3) by simp
  have ilen: "i < length (Data result)" using Cons.prems(2) by simp
  have "Data g ! i = (l - before) / (1 / 10000)"
    using IH(5) inot ilen by (simp add: result1_def)
  moreover have "batch_loss ix (perturbed (X p) i) samps = Some l"
    using l by (simp add: hingeLoss_exact p1_def perturbed_def X_set_cell)
  ultimately have "Some (Data g ! i) =
      map_option (\<lambda>l. (l - before) / (1 / 10000)) (batch_loss ix (perturbed (X p) i) samps)"
    by simp
  moreover have "\<forall>j. j \<notin> set (i # js) \<longrightarrow> Data g ! j = Data result ! j"
    using IH(5) by (simp add: result1_def)
  ultimately show ?case
    using IH by (simp add: result1_def)
qed

lemma gradientLoss_exact:
  assumes "gradientLoss exact ix p samps = Some (g, p')"
  shows "p' = p \<and> numeric_gradient ix (X p) samps = Some g"
proof -
  let ?n = "nat (prod_list (Shape (X p)))"
  from assms have nonneg: "\<not> (\<exists>d \<in> set (Shape (X p)). d < 0)"
    by (auto simp: gradientLoss_def Zero_def split: if_splits)
  define result :: "real Array" where
    "result = \<lparr>Data = replicate ?n (fnum exact 0), Shape = Shape (X p)\<rparr>"
  have z: "Zero exact (Shape (X p)) = Some result"
    using nonneg by (simp add: Zero_def result_def)
  from assms z obtain before where
    before: "hingeLoss exact ix p samps = Some before"
    and loop: "grad_loop exact ix before samps [0..<length (Data result)] result p = Some (g, p')"
    by (auto simp: gradientLoss_def split: option.splits)
  have len: "length (Data result) = ?n" by (simp add: result_def)
  have facts: "p' = p" "Shape g = Shape result" "length (Data g) = length (Data result)"
    "\<forall>j \<in> set [0..<length (Data result)]. Some (Data g ! j) =
        map_option (\<lambda>l. (l - before) / (1 / 10000)) (batch_loss ix (perturbed (X p) j) samps)"
    using grad_loop_exact [OF loop] by auto
  have b0: "batch_loss ix (X p) samps = Some before"
    using before by (simp add: hingeLoss_exact)
  have fd: "\<forall>j < ?n. finite_difference ix (X p) samps j = Some (Data g ! j)"
  proof (intro allI impI)
    fix j assume "j < ?n"
    then have "Some (Data g ! j) =
        map_option (\<lambda>l. (l - before) / (1 / 10000)) (batch_loss ix (perturbed (X p) j) samps)"
      using facts(4) len by simp
    then show "finite_difference ix (X p) samps j = Some (Data g ! j)"
      by (auto simp: finite_difference_def b0 split: option.splits)
  qed
  have "map (finite_difference ix (X p) samps) [0..<?n] = map Some (Data g)"
    using fd facts(3) len by (intro nth_equalityI) simp_all
  then have "those (map (finite_difference ix (X p) samps) [0..<?n]) = Some (Data g)"
    by (simp add: those_eq_Some)
  moreover have "g = \<lparr>Data = Data g, Shape = Shape (X p)\<rparr>"
    using facts(2) by (simp add: result_def)
  ultimately have "numeric_gradient ix (X p) samps = Some g"
    using nonneg by (simp add: numeric_gradient_def)
  with facts(1) show ?thesis by simp
qed

text \<open>
  In exact arithmetic the loss \<open>hingeLoss\<close> returns is the mean over the list of
  \<open>max(0, 1 - (Current[u][a] - Current[u][b]))\<close> (\<open>batch_loss\<close>), and the matrix
  \<open>gradientLoss\<close> returns has one component for each of the \<open>users * items\<close> cells of
  \<open>Current\<close>, which is the loss with that one cell raised by \<open>0.0001\<close>, minus the loss,
  divided by \<open>0.0001\<close> (\<open>finite_difference\<close>).
\<close>

lemma gradientLoss_exact_components:
  assumes "samps \<noteq> []" and "Shape (X p) = [users, items]"
  shows "hingeLoss exact ix p samps = batch_loss ix (X p) samps
       \<and> (\<forall>g p'. gradientLoss exact ix p samps = Some (g, p') \<longrightarrow>
             length (Data g) = nat (users * items)
           \<and> (\<forall>i < nat (users * items).
                 finite_difference ix (X p) samps i = Some (Data g ! i)))"
proof -
  have "length (Data g) = nat (users * items)
      \<and> (\<forall>i < nat (users * items). finite_difference ix (X p) samps i = Some (Data g ! i))"
    if "gradientLoss exact ix p samps = Some (g, p')" for g p'
  proof -
    from that have "numeric_gradient ix (X p) samps = Some g"
      using gradientLoss_exact by blast
    then have eq: "map (finite_difference ix (X p) samps) [0..<nat (users * items)] = map Some (Data g)"
      using assms(2) by (auto simp: numeric_gradient_def those_eq_Some split: if_splits)
    then have len: "length (Data g) = nat (users * items)"
      by (metis length_map length_upt minus_nat.diff_0)
    have "finite_difference ix (X p) samps i = Some (Data g ! i)" if "i < nat (users * items)" for i
    proof -
      have "map (finite_difference ix (X p) samps) [0..<nat (users * items)] ! i
            = finite_difference ix (X p) samps i"
        using that by simp
      moreover have "map Some (Data g) ! i = Some (Data g ! i)"
        using that len by simp
      ultimately show ?thesis using eq by simp
    qed
    with len show ?thesis by simp
  qed
  then show ?thesis
    using hingeLoss_exact by blast
qed

subsection \<open>The restored cell, in binary64\<close>

lemma upt_2: "[0..<2] = [0, Suc 0]"
  by (simp add: upt_rec numeral_2_eq_2)

lemma zero_12: "Zero b64 [1, 2] = Some \<lparr>Data = [Float 0 0, Float 0 0], Shape = [1, 2]\<rparr>"
  by (simp add: Zero_def b64_sel zero_val numeral_2_eq_2)

text \<open>
  Claim C5 says that \<open>gradientLoss\<close> leaves every cell of \<open>Current\<close> at the value it had.
  In exact arithmetic it does (\<open>gradientLoss_exact\<close>). The source restores a cell by
  subtracting \<open>0.0001\<close> from the raised value, and in binary64 that does not always give
  the value back: on the engine \<open>eighth12\<close>, whose first cell is \<open>0.125\<close>, \<open>gradientLoss\<close>
  returns with the first cell at \<open>(2^53 - 1) * 2^-56 = 0.12499999999999999\<close>.
\<close>

theorem gradientLoss_drift:
  "map_option (\<lambda>(g, p). Data (X p)) (gradientLoss b64 rowmajor eighth12 (History eighth12))
     = Some [Float 9007199254740991 (- 56), Float 0 0]
   \<and> Data (X eighth12) = [Float 1 (- 3), Float 0 0]"
  by (simp add: gradientLoss_def zero_12 hingeLoss_def set_cell_def elem_def cell_def
      rowmajor_def eighth12_def upt_2 b64_sel eps_val up0 down0 up1 down1)

subsection \<open>The gradient after a cell that is not restored, in binary64\<close>

lemma ops_tenth12:
  "b64_sub (Float 1 (- 3)) (Float 3602879701896397 (- 55)) = Float 900719925474099 (- 55)"
  "b64_sub (Float 1 0) (Float 900719925474099 (- 55)) = Float 8782019273372467 (- 53)"
  "b64_max (Float 8782019273372467 (- 53)) (Float 0 0) = Float 8782019273372467 (- 53)"
  "b64_add (Float 0 0) (Float 8782019273372467 (- 53)) = Float 8782019273372467 (- 53)"
  "b64_div (Float 8782019273372467 (- 53)) (Float 1 0) = Float 8782019273372467 (- 53)"
  "b64_sub (Float 563400313384049 (- 52)) (Float 3602879701896397 (- 55)) = Float 904322805175995 (- 55)"
  "b64_sub (Float 1 0) (Float 904322805175995 (- 55)) = Float 8781118553446993 (- 53)"
  "b64_max (Float 8781118553446993 (- 53)) (Float 0 0) = Float 8781118553446993 (- 53)"
  "b64_add (Float 0 0) (Float 8781118553446993 (- 53)) = Float 8781118553446993 (- 53)"
  "b64_div (Float 8781118553446993 (- 53)) (Float 1 0) = Float 8781118553446993 (- 53)"
  "b64_sub (Float 8781118553446993 (- 53)) (Float 8782019273372467 (- 53)) = Float (- 450359962737) (- 52)"
  "b64_div (Float (- 450359962737) (- 52)) (Float 7378697629483821 (- 66)) = Float (- 281474976710625) (- 48)"
  "b64_add (Float 3602879701896397 (- 55)) (Float 7378697629483821 (- 66)) = Float 7212965163196587 (- 56)"
  "b64_sub (Float 9007199254740991 (- 56)) (Float 7212965163196587 (- 56)) = Float 448558522886101 (- 54)"
  "b64_sub (Float 1 0) (Float 448558522886101 (- 54)) = Float 4391459996648971 (- 52)"
  "b64_max (Float 4391459996648971 (- 52)) (Float 0 0) = Float 4391459996648971 (- 52)"
  "b64_add (Float 0 0) (Float 4391459996648971 (- 52)) = Float 4391459996648971 (- 52)"
  "b64_div (Float 4391459996648971 (- 52)) (Float 1 0) = Float 4391459996648971 (- 52)"
  "b64_sub (Float 4391459996648971 (- 52)) (Float 8782019273372467 (- 53)) = Float 900719925475 (- 53)"
  "b64_div (Float 900719925475 (- 53)) (Float 7378697629483821 (- 66)) = Float 562949953421875 (- 49)"
  "b64_sub (Float 7212965163196587 (- 56)) (Float 7378697629483821 (- 66)) = Float 3602879701896397 (- 55)"
  "b64_sub (Float 1 (- 3)) (Float 7212965163196587 (- 56)) = Float 1794234091544405 (- 56)"
  "b64_sub (Float 1 0) (Float 1794234091544405 (- 56)) = Float 8782919993297941 (- 53)"
  "b64_max (Float 8782919993297941 (- 53)) (Float 0 0) = Float 8782919993297941 (- 53)"
  "b64_add (Float 0 0) (Float 8782919993297941 (- 53)) = Float 8782919993297941 (- 53)"
  "b64_div (Float 8782919993297941 (- 53)) (Float 1 0) = Float 8782919993297941 (- 53)"
  "b64_sub (Float 8782919993297941 (- 53)) (Float 8782019273372467 (- 53)) = Float 450359962737 (- 52)"
  "b64_div (Float 450359962737 (- 52)) (Float 7378697629483821 (- 66)) = Float 281474976710625 (- 48)"
  by (simp_all add: b64_eval)

text \<open>
  Claim C3 says that the component of the gradient for a cell is the loss with that
  single cell raised by \<open>0.0001\<close>, minus the loss, divided by \<open>0.0001\<close>. In exact
  arithmetic it is (\<open>gradientLoss_exact_components\<close>). The source takes the loss for a
  cell on the matrix that the rounds for the cells before it have left, and in binary64
  such a round does not always give its cell the value back (claim C5). On the engine
  \<open>tenth12\<close>, whose cells are \<open>0.125\<close> and \<open>0.1\<close>, the first round leaves
  \<open>0.12499999999999999\<close> in the first cell, and the component of the second cell comes
  out as \<open>562949953421875 * 2^-49 = 1.000000000001\<close>, while the loss with the second cell
  alone raised, minus the loss, divided by \<open>0.0001\<close>, all in binary64, is
  \<open>281474976710625 * 2^-48 = 0.9999999999998899\<close>. For the first cell, before which no
  round has run, the two agree.
\<close>

theorem gradientLoss_not_single_cell:
  "map_option (\<lambda>(g, p). Data g) (gradientLoss b64 rowmajor tenth12 (History tenth12))
     = Some [Float (- 281474976710625) (- 48), Float 562949953421875 (- 49)]
   \<and> single_cell_difference b64 rowmajor tenth12 (History tenth12) 0
     = Some (Float (- 281474976710625) (- 48))
   \<and> single_cell_difference b64 rowmajor tenth12 (History tenth12) 1
     = Some (Float 281474976710625 (- 48))"
  by (simp add: gradientLoss_def single_cell_difference_def zero_12 hingeLoss_def set_cell_def
      elem_def cell_def rowmajor_def tenth12_def upt_2 b64_sel eps_val zero_val nums up0 down0
      ops_tenth12)

section \<open>Respond: the accelerated proximal step\<close>

lemma update_exact:
  assumes "update exact sqrt L p samps = Some p'" and "samps = History p"
  shows "fista_step L p = Some p'"
proof -
  from assms(1) obtain g p1 where gl: "gradientLoss exact (index L) p samps = Some (g, p1)"
    by (auto simp: update_def Let_def split: Option.bind_splits)
  then have p1: "p1 = p" and ng: "numeric_gradient (index L) (X p) (History p) = Some g"
    using gradientLoss_exact assms(2) by blast+
  have sq: "4 * Alpha p * Alpha p = 4 * (Alpha p)\<^sup>2"
    by (simp add: power2_eq_square)
  show ?thesis
    using assms(1)
    by (simp add: update_def fista_step_def Let_def gl p1 ng exact_sel sq)
qed

lemma Respond_fresh11:
  "Respond exact sqrt (scalar_gauss exact) fresh11 (ask 0 0 0)
     = Some (None, fresh11\<lparr>Alpha := (1 + sqrt 5) / 2, History := [ask 0 0 0]\<rparr>)"
  by (simp add: Respond_def update_def gradientLoss_def Zero_def hingeLoss_def set_cell_def
      elem_def cell_def rowmajor_def fresh11_def ask_def exact_sel scalar_gauss_def
      scalar_of_def one_cell_def Let_def)

text \<open>
  In exact arithmetic the engine after a successful \<open>Respond(q)\<close> is the engine that
  \<open>fista_step\<close> gives for the engine with \<open>q\<close> appended to its history: with
  \<open>alphaNext = (1 + sqrt(1 + 4 alpha^2)) / 2\<close>, the numerical gradient \<open>G\<close> of the batch loss
  over the whole history at \<open>Current\<close>, and \<open>(U, S, V) = svd(Momentum - stepSize G)\<close>, every
  singular value \<open>s\<close> becomes \<open>max(0, s - regularizationStrength)\<close>, \<open>Previous\<close> becomes the old
  \<open>Current\<close>, \<open>Current\<close> becomes \<open>U diag(S) V^t\<close>, \<open>Momentum\<close> becomes
  \<open>Current + ((alpha - 1) / alphaNext) (Current - Previous)\<close> with the new \<open>Current\<close> and
  \<open>Previous\<close> and the old \<open>alpha\<close>, and \<open>alpha\<close> becomes \<open>alphaNext\<close>. Differences and
  multiples of matrices are the library's \<open>Sum\<close> and \<open>Scale\<close>, as in the source.
\<close>

lemma Respond_exact:
  assumes "Respond exact sqrt L p q = Some (None, p')"
  shows "fista_step L (p\<lparr>History := History p @ [q]\<rparr>) = Some p'"
proof -
  from assms have "update exact sqrt L (p\<lparr>History := History p @ [q]\<rparr>) (History p @ [q]) = Some p'"
    by (auto simp: Respond_def Let_def split: if_splits option.splits)
  then show ?thesis
    by (rule update_exact) simp
qed

subsection \<open>The matrix that is saved as Previous\<close>

text \<open>
  For any arithmetic and library: \<open>update\<close> runs \<open>gradientLoss\<close> before it assigns
  \<open>p.Xp = p.X\<close>, so what it saves is \<open>Current\<close> as the loop of \<open>gradientLoss\<close> has left it,
  and that loop has visited every cell: where \<open>Current\<close> held \<open>x\<close>, \<open>Previous\<close> holds
  \<open>(x + 0.0001) - 0.0001\<close> as the arithmetic computes it.
\<close>

lemma foldl_visit:
  "k \<le> length d \<Longrightarrow>
   foldl (\<lambda>d j. d[j := f (d ! j)]) d [0..<k] = map f (take k d) @ drop k d"
proof (induction k)
  case 0
  show ?case by simp
next
  case (Suc k)
  then have k: "k < length d" by simp
  have "foldl (\<lambda>d j. d[j := f (d ! j)]) d [0..<Suc k]
      = (map f (take k d) @ drop k d)[k := f ((map f (take k d) @ drop k d) ! k)]"
    using Suc by simp
  also have "(map f (take k d) @ drop k d) ! k = d ! k"
    using k by (simp add: nth_append)
  also have "(map f (take k d) @ drop k d)[k := f (d ! k)]
      = map f (take k d) @ (drop k d)[0 := f (d ! k)]"
    using k by (simp add: list_update_append)
  also have "(drop k d)[0 := f (d ! k)] = f (d ! k) # drop (Suc k) d"
    using k by (simp add: Cons_nth_drop_Suc [symmetric])
  also have "map f (take k d) @ f (d ! k) # drop (Suc k) d = map f (take (Suc k) d) @ drop (Suc k) d"
    using k by (simp add: take_Suc_conv_app_nth)
  finally show ?case .
qed

lemma grad_loop_bound:
  assumes "grad_loop A ix before samps js result p = Some (g, p')"
  shows "\<forall>j \<in> set js. j < length (Data (X p))"
  using assms
proof (induction js arbitrary: result p)
  case Nil
  show ?case by simp
next
  case (Cons i js)
  from Cons.prems have i: "i < length (Data (X p))"
    by (simp split: if_splits)
  define p1 where "p1 = set_cell p i (fadd A (Data (X p) ! i) (fdec A 1 4))"
  define p2 where "p2 = set_cell p1 i (fsub A (Data (X p1) ! i) (fdec A 1 4))"
  from Cons.prems i obtain result1 where
    "grad_loop A ix before samps js result1 p2 = Some (g, p')"
    by (auto simp: Let_def p1_def p2_def split: option.splits)
  from Cons.IH [OF this] have "\<forall>j \<in> set js. j < length (Data (X p2))" .
  moreover have "length (Data (X p2)) = length (Data (X p))"
    by (simp add: p2_def p1_def set_cell_def)
  ultimately show ?case using i by simp
qed

lemma gradientLoss_cells:
  assumes "gradientLoss A ix p samps = Some (g, p1)"
    and "i < nat (prod_list (Shape (X p)))"
  shows "Data (X p1) ! i = fsub A (fadd A (Data (X p) ! i) (fdec A 1 4)) (fdec A 1 4)"
proof -
  let ?n = "nat (prod_list (Shape (X p)))"
  let ?f = "\<lambda>x. fsub A (fadd A x (fdec A 1 4)) (fdec A 1 4)"
  from assms(1) obtain result before where
    z: "Zero A (Shape (X p)) = Some result"
    and loop: "grad_loop A ix before samps [0..<length (Data result)] result p = Some (g, p1)"
    by (auto simp: gradientLoss_def split: option.splits)
  from z have len: "length (Data result) = ?n"
    by (auto simp: Zero_def split: if_splits)
  from grad_loop_bound [OF loop] assms(2) have i: "i < length (Data (X p))"
    by (simp add: len)
  have "?n - 1 < length (Data (X p))"
    using grad_loop_bound [OF loop] assms(2) by (simp add: len)
  then have n: "?n \<le> length (Data (X p))" by simp
  from grad_loop_state [OF loop] have "Data (X p1) = foldl (\<lambda>d j. d[j := ?f (d ! j)]) (Data (X p)) [0..<?n]"
    by (simp add: len)
  also have "\<dots> = map ?f (take ?n (Data (X p))) @ drop ?n (Data (X p))"
    using n by (rule foldl_visit)
  finally show ?thesis
    using assms(2) n by (simp add: nth_append)
qed

lemma update_Previous:
  assumes "update A sqrt_f L p samps = Some p'"
  shows "\<exists>g p1. gradientLoss A (index L) p samps = Some (g, p1) \<and> Xp p' = X p1"
  using assms by (auto simp: update_def Let_def split: Option.bind_splits)

lemma Respond_Previous:
  assumes "Respond A sqrt_f L p q = Some (None, p')"
    and "i < nat (prod_list (Shape (X p)))"
  shows "Data (Xp p') ! i = fsub A (fadd A (Data (X p) ! i) (fdec A 1 4)) (fdec A 1 4)"
proof -
  from assms(1) have "update A sqrt_f L (p\<lparr>History := History p @ [q]\<rparr>) (History p @ [q]) = Some p'"
    by (auto simp: Respond_def Let_def split: if_splits option.splits)
  from update_Previous [OF this] obtain g p1 where
    gl: "gradientLoss A (index L) (p\<lparr>History := History p @ [q]\<rparr>) (History p @ [q]) = Some (g, p1)"
    and xp: "Xp p' = X p1"
    by blast
  from gradientLoss_cells [OF gl] assms(2) xp show ?thesis by simp
qed

lemma ops_eighth11:
  "b64_mul (Float 1 2) (Float 1 0) = Float 1 2"
  "b64_add (Float 1 0) (Float 1 2) = Float 5 0"
  "b64_add (Float 1 0) (Float 629397181890197 (- 48)) = Float 910872158600853 (- 48)"
  "b64_div (Float 910872158600853 (- 48)) (Float 1 1) = Float 910872158600853 (- 49)"
  "b64_sub (Float 1 (- 3)) (Float 1 (- 3)) = Float 0 0"
  "b64_sub (Float 1 0) (Float 0 0) = Float 1 0"
  "b64_max (Float 1 0) (Float 0 0) = Float 1 0"
  "b64_add (Float 0 0) (Float 1 0) = Float 1 0"
  "b64_div (Float 1 0) (Float 1 0) = Float 1 0"
  "b64_sub (Float 563400313384049 (- 52)) (Float 563400313384049 (- 52)) = Float 0 0"
  "b64_sub (Float 1 0) (Float 1 0) = Float 0 0"
  "b64_div (Float 0 0) (Float 7378697629483821 (- 66)) = Float 0 0"
  "b64_mul (Float 0 0) (Float (- 1) 0) = Float 0 0"
  "b64_add (Float 1 (- 3)) (Float 0 0) = Float 1 (- 3)"
  "b64_lt (Float 1 (- 3)) (Float 0 0) \<longleftrightarrow> False"
  "b64_sub (Float 1 (- 3)) (Float 5764607523034235 (- 57)) = Float 3062447746611937 (- 55)"
  "b64_max (Float 0 0) (Float 3062447746611937 (- 55)) = Float 3062447746611937 (- 55)"
  "b64_mul (Float 1 0) (Float 3062447746611937 (- 55)) = Float 3062447746611937 (- 55)"
  "b64_mul (Float 3062447746611937 (- 55)) (Float 1 0) = Float 3062447746611937 (- 55)"
  "b64_mul (Float 9007199254740991 (- 56)) (Float (- 1) 0) = Float (- 9007199254740991) (- 56)"
  "b64_add (Float 3062447746611937 (- 55)) (Float (- 9007199254740991) (- 56)) = Float (- 2882303761517117) (- 56)"
  "b64_div (Float 0 0) (Float 910872158600853 (- 49)) = Float 0 0"
  "b64_mul (Float (- 2882303761517117) (- 56)) (Float 0 0) = Float 0 0"
  "b64_add (Float 3062447746611937 (- 55)) (Float 0 0) = Float 3062447746611937 (- 55)"
  by (simp_all add: b64_eval)

text \<open>
  \<open>Respond\<close> on \<open>eighth11\<close>, to its end: the gradient is zero, the momentum \<open>0.125\<close> is
  the one singular value, lowered by \<open>0.04\<close> to the new \<open>Current\<close>, and \<open>alpha\<close> becomes
  \<open>(1 + sqrt 5) / 2\<close>.
\<close>

lemma Respond_eighth11:
  "Respond b64 sqrt64 (scalar_gauss b64) eighth11 same_item
     = Some (None, eighth11\<lparr>X := \<lparr>Data = [Float 3062447746611937 (- 55)], Shape = [1, 1]\<rparr>,
                             Xp := \<lparr>Data = [Float 9007199254740991 (- 56)], Shape = [1, 1]\<rparr>,
                             Z := \<lparr>Data = [Float 3062447746611937 (- 55)], Shape = [1, 1]\<rparr>,
                             Alpha := Float 910872158600853 (- 49),
                             History := [same_item]\<rparr>)"
  by (simp add: Respond_def update_def gradientLoss_def Zero_def hingeLoss_def set_cell_def
      elem_def cell_def rowmajor_def eighth11_def same_item_def b64_sel scalar_gauss_def
      scalar_of_def one_cell_def Let_def sqrt64_def nums ops_eighth11 eps_val zero_val up0 down0)

text \<open>
  Claim C1 says that \<open>Respond\<close> sets \<open>Previous\<close> to the old \<open>Current\<close>, and takes the
  gradient and the momentum with it. In exact arithmetic it does, and the whole step is
  the one of the specification (\<open>Respond_exact\<close>). The source saves \<open>Current\<close> after
  \<open>gradientLoss\<close> has raised and lowered every cell of it (\<open>Respond_Previous\<close>), and in
  binary64 a cell that held \<open>0.125\<close> then holds \<open>(2^53 - 1) * 2^-56 = 0.12499999999999999\<close>
  (claim C5). So for every binary64 engine, library and comparison: when \<open>Respond\<close>
  succeeds, \<open>Previous\<close> holds \<open>0.12499999999999999\<close> in every cell in which \<open>Current\<close> held
  \<open>0.125\<close>.
\<close>

theorem Respond_previous_drift:
  assumes "Respond b64 sqrt_f L p q = Some (None, p')"
    and "i < nat (prod_list (Shape (X p)))"
    and "Data (X p) ! i = Float 1 (- 3)"
  shows "Data (Xp p') ! i = Float 9007199254740991 (- 56)"
  using Respond_Previous [OF assms(1,2)] assms(3)
  by (simp add: b64_sel eps_val up0 down0)

theorem Respond_previous_drift_witness:
  "Respond b64 sqrt64 (scalar_gauss b64) eighth11 same_item
     = Some (None, eighth11\<lparr>X := \<lparr>Data = [Float 3062447746611937 (- 55)], Shape = [1, 1]\<rparr>,
                             Xp := \<lparr>Data = [Float 9007199254740991 (- 56)], Shape = [1, 1]\<rparr>,
                             Z := \<lparr>Data = [Float 3062447746611937 (- 55)], Shape = [1, 1]\<rparr>,
                             Alpha := Float 910872158600853 (- 49),
                             History := [same_item]\<rparr>)
   \<and> (0 :: nat) < nat (prod_list (Shape (X eighth11)))
   \<and> Data (X eighth11) ! 0 = Float 1 (- 3)
   \<and> Data (Xp (eighth11\<lparr>X := \<lparr>Data = [Float 3062447746611937 (- 55)], Shape = [1, 1]\<rparr>,
                            Xp := \<lparr>Data = [Float 9007199254740991 (- 56)], Shape = [1, 1]\<rparr>,
                            Z := \<lparr>Data = [Float 3062447746611937 (- 55)], Shape = [1, 1]\<rparr>,
                            Alpha := Float 910872158600853 (- 49),
                            History := [same_item]\<rparr>)) ! 0
     = Float 9007199254740991 (- 56)"
proof -
  note r = Respond_eighth11
  have i: "(0 :: nat) < nat (prod_list (Shape (X eighth11)))" by (simp add: eighth11_def)
  have x: "Data (X eighth11) ! 0 = Float 1 (- 3)" by (simp add: eighth11_def)
  from Respond_previous_drift [OF r i x] r i x show ?thesis by (intro conjI)
qed

section \<open>Respond: the size of the batch\<close>

lemma loss_loop_flen: "loss_loop (A\<lparr>flen := g\<rparr>) ix x s samps = loss_loop A ix x s samps"
  by (induction samps arbitrary: s) (simp_all split: option.splits)

lemma hingeLoss_flen:
  "samps \<noteq> [] \<Longrightarrow>
   hingeLoss (A\<lparr>flen := (flen A)(0 := v)\<rparr>) ix p samps = hingeLoss A ix p samps"
  by (simp add: hingeLoss_def loss_loop_flen split: option.splits)

lemma grad_loop_flen:
  "samps \<noteq> [] \<Longrightarrow>
   grad_loop (A\<lparr>flen := (flen A)(0 := v)\<rparr>) ix before samps js result p
     = grad_loop A ix before samps js result p"
  by (induction js arbitrary: result p) (simp_all add: hingeLoss_flen Let_def split: option.splits)

lemma gradientLoss_flen:
  "samps \<noteq> [] \<Longrightarrow>
   gradientLoss (A\<lparr>flen := (flen A)(0 := v)\<rparr>) ix p samps = gradientLoss A ix p samps"
  by (simp add: gradientLoss_def Zero_def hingeLoss_flen grad_loop_flen split: option.splits)

lemma update_flen:
  "samps \<noteq> [] \<Longrightarrow>
   update (A\<lparr>flen := (flen A)(0 := v)\<rparr>) sqrt_f L p samps = update A sqrt_f L p samps"
  by (simp add: update_def gradientLoss_flen)

lemma gradientLoss_History:
  assumes "gradientLoss A ix p samps = Some (g, p')"
  shows "History p' = History p"
proof -
  from assms obtain before result js where
    "grad_loop A ix before samps js result p = Some (g, p')"
    by (auto simp: gradientLoss_def split: option.splits)
  from grad_loop_state [OF this] show ?thesis
    by (metis (no_types, lifting) Engine.select_convs(8) Engine.surjective Engine.update_convs(1))
qed

lemma update_History:
  assumes "update A sqrt_f L p samps = Some p'"
  shows "History p' = History p"
proof -
  from assms obtain g p1 where gl: "gradientLoss A (index L) p samps = Some (g, p1)"
    by (auto simp: update_def Let_def split: Option.bind_splits)
  from gradientLoss_History [OF gl] assms show ?thesis
    by (auto simp: update_def Let_def gl split: Option.bind_splits)
qed

text \<open>
  Claim C10. The only divisor that depends on the size of a batch is
  \<open>float64(len(samps))\<close> in \<open>hingeLoss\<close>. Whatever the value of \<open>float64(0)\<close> as that divisor
  is taken to be, \<open>Respond\<close> does the same and returns the same, for any arithmetic and
  library: no loss and no gradient that \<open>Respond\<close> takes is over an empty batch. The
  batch is the history with the new comparison appended, which is the history of the
  engine when \<open>Respond\<close> has returned.
\<close>

theorem Respond_never_divides_by_empty_batch:
  "Respond (A\<lparr>flen := (flen A)(0 := v)\<rparr>) sqrt_f L p q = Respond A sqrt_f L p q
   \<and> (\<forall>p'. Respond A sqrt_f L p q = Some (None, p') \<longrightarrow> History p' = History p @ [q])"
proof
  show "Respond (A\<lparr>flen := (flen A)(0 := v)\<rparr>) sqrt_f L p q = Respond A sqrt_f L p q"
    by (simp add: Respond_def update_flen Let_def split: option.splits)
next
  show "\<forall>p'. Respond A sqrt_f L p q = Some (None, p') \<longrightarrow> History p' = History p @ [q]"
  proof (intro allI impI)
    fix p' assume "Respond A sqrt_f L p q = Some (None, p')"
    then have "update A sqrt_f L (p\<lparr>History := History p @ [q]\<rparr>) (History p @ [q]) = Some p'"
      by (auto simp: Respond_def Let_def split: if_splits option.splits)
    from update_History [OF this] show "History p' = History p @ [q]" by simp
  qed
qed

theorem Respond_never_divides_by_empty_batch_witness:
  "Respond exact sqrt (scalar_gauss exact) fresh11 (ask 0 0 0)
     = Some (None, fresh11\<lparr>Alpha := (1 + sqrt 5) / 2, History := [ask 0 0 0]\<rparr>)
   \<and> Respond (exact\<lparr>flen := (flen exact)(0 := 7)\<rparr>) sqrt (scalar_gauss exact) fresh11 (ask 0 0 0)
     = Some (None, fresh11\<lparr>Alpha := (1 + sqrt 5) / 2, History := [ask 0 0 0]\<rparr>)
   \<and> History (fresh11\<lparr>Alpha := (1 + sqrt 5) / 2, History := [ask 0 0 0]\<rparr>)
     = History fresh11 @ [ask 0 0 0]"
proof -
  note r = Respond_fresh11
  note c = Respond_never_divides_by_empty_batch
    [where A = exact and v = 7 and sqrt_f = sqrt and L = "scalar_gauss exact" and p = fresh11
       and q = "ask 0 0 0"]
  from c r have "Respond (exact\<lparr>flen := (flen exact)(0 := 7)\<rparr>) sqrt (scalar_gauss exact) fresh11
      (ask 0 0 0) = Some (None, fresh11\<lparr>Alpha := (1 + sqrt 5) / 2, History := [ask 0 0 0]\<rparr>)"
    by simp
  moreover from c r have "History (fresh11\<lparr>Alpha := (1 + sqrt 5) / 2, History := [ask 0 0 0]\<rparr>)
      = History fresh11 @ [ask 0 0 0]"
    by blast
  ultimately show ?thesis using r by (intro conjI)
qed

section \<open>Generate\<close>

subsection \<open>The engine is not changed\<close>

lemma Generate_snd: "snd (Generate A exp_f ix p user r) = p"
  by (simp add: Generate_def split: option.splits prod.splits)

text \<open>
  Claim C9. After any sequence of calls to \<open>Generate\<close>, with any filters and any random
  draws, the engine (its three matrices, its history and its four scalars) is the
  engine before the calls.
\<close>

theorem generate_all_frame: "snd (generate_all A exp_f ix p calls) = p"
proof (induction calls arbitrary: p)
  case Nil
  show ?case by simp
next
  case (Cons c calls)
  obtain user r where c: "c = (user, r)" by (cases c)
  have "snd (Generate A exp_f ix p user r) = p" by (rule Generate_snd)
  with Cons.IH show ?case
    by (simp add: c split: prod.splits) (metis snd_conv)
qed

subsection \<open>The candidates\<close>

lemma pairs_set: "(a, b) \<in> set (pairs n) \<longleftrightarrow> 0 \<le> a \<and> a < n \<and> 0 \<le> b \<and> b < n \<and> a \<noteq> b"
  by (auto simp: pairs_def)

lemma eligible_set:
  "(u, a, b) \<in> set (eligible users items f) \<longleftrightarrow>
     0 \<le> u \<and> u < users \<and> (f < 0 \<or> f = u) \<and> 0 \<le> a \<and> a < items \<and> 0 \<le> b \<and> b < items \<and> a \<noteq> b"
  by (auto simp: eligible_def pairs_set)

lemma eligible_set_eq:
  "set (eligible users items f) =
     {(u, a, b). 0 \<le> u \<and> u < users \<and> (f < 0 \<or> f = u)
        \<and> 0 \<le> a \<and> a < items \<and> 0 \<le> b \<and> b < items \<and> a \<noteq> b}"
  using eligible_set by auto

lemma those_append:
  "those (xs @ ys) =
     (case those xs of None \<Rightarrow> None | Some a \<Rightarrow> map_option ((@) a) (those ys))"
proof (induction xs)
  case Nil
  show ?case by (cases "those ys") simp_all
next
  case (Cons x xs)
  show ?case
    using Cons.IH by (cases "those ys") (auto split: option.splits)
qed

lemma pair_loop_those:
  "pair_loop A exp_f ix p u ps (s, cs) =
     (case those (map (candidate A exp_f ix p \<circ> Pair u) ps) of
        None \<Rightarrow> None
      | Some ds \<Rightarrow> Some (foldl (fadd A) s (map weight ds), cs @ ds))"
proof (induction ps arbitrary: s cs)
  case Nil
  show ?case by simp
next
  case (Cons ab ps)
  obtain a b where ab: "ab = (a, b)" by (cases ab)
  show ?case
    by (simp add: ab Cons.IH Let_def split: option.splits)
qed

lemma user_loop_those:
  assumes "Shape (X p) = [users, items]"
  shows "user_loop A exp_f ix p f us (s, cs) =
     (case those (map (candidate A exp_f ix p)
                   (concat (map (\<lambda>u. map (Pair u) (pairs items))
                                (filter (\<lambda>u. f < 0 \<or> f = u) us)))) of
        None \<Rightarrow> None
      | Some ds \<Rightarrow> Some (foldl (fadd A) s (map weight ds), cs @ ds))"
proof (induction us arbitrary: s cs)
  case Nil
  show ?case by simp
next
  case (Cons u us)
  have s1: "elem (Shape (X p)) 1 = Some items"
    using assms by (simp add: elem_def)
  let ?rest = "concat (map (\<lambda>u. map (Pair u) (pairs items)) (filter (\<lambda>u. f < 0 \<or> f = u) us))"
  show ?case
  proof (cases "f \<ge> 0 \<and> f \<noteq> u")
    case True
    then show ?thesis using Cons.IH by auto
  next
    case False
    then have keep: "f < 0 \<or> f = u" by auto
    have lhs: "user_loop A exp_f ix p f (u # us) (s, cs) =
        (case pair_loop A exp_f ix p u (pairs items) (s, cs) of
           None \<Rightarrow> None
         | Some acc1 \<Rightarrow> user_loop A exp_f ix p f us acc1)"
      using False by (auto simp: s1)
    have split: "those (map (candidate A exp_f ix p) (map (Pair u) (pairs items) @ ?rest)) =
        (case those (map (candidate A exp_f ix p \<circ> Pair u) (pairs items)) of
           None \<Rightarrow> None
         | Some a \<Rightarrow> map_option ((@) a) (those (map (candidate A exp_f ix p) ?rest)))"
      by (simp add: those_append)
    have flt: "filter (\<lambda>u. f < 0 \<or> f = u) (u # us) = u # filter (\<lambda>u. f < 0 \<or> f = u) us"
      using keep by simp
    show ?thesis
    proof (cases "those (map (candidate A exp_f ix p \<circ> Pair u) (pairs items))")
      case None
      then show ?thesis
        unfolding lhs flt by (simp add: pair_loop_those those_append)
    next
      case (Some ds)
      show ?thesis
      proof (cases "those (map (candidate A exp_f ix p) ?rest)")
        case None
        then show ?thesis
          unfolding lhs flt using Some by (simp add: pair_loop_those those_append Cons.IH)
      next
        case (Some es)
        then show ?thesis
          unfolding lhs flt using \<open>those (map (candidate A exp_f ix p \<circ> Pair u) (pairs items)) = Some ds\<close>
          by (simp add: pair_loop_those those_append Cons.IH)
      qed
    qed
  qed
qed

lemma Generate_those:
  assumes "Shape (X p) = [users, items]"
  shows "Generate A exp_f ix p f r =
     (case those (map (candidate A exp_f ix p) (eligible users items f)) of
        None \<Rightarrow> (None, p)
      | Some cs \<Rightarrow> (walk A ix p (fmul A r (foldl (fadd A) (fnum A 0) (map weight cs))) cs, p))"
proof -
  have s0: "elem (Shape (X p)) 0 = Some users"
    using assms by (simp add: elem_def)
  show ?thesis
    by (simp add: Generate_def s0 user_loop_those [OF assms] eligible_def split: option.splits)
qed

lemma those_candidates:
  assumes "those (map (candidate A exp_f ix p) ts) = Some cs"
  shows "length cs = length ts \<and> (\<forall>j < length ts. candidate A exp_f ix p (ts ! j) = Some (cs ! j))"
proof -
  from assms have eq: "map (candidate A exp_f ix p) ts = map Some cs"
    by (simp add: those_eq_Some)
  then have len: "length cs = length ts"
    by (metis length_map)
  have "candidate A exp_f ix p (ts ! j) = Some (cs ! j)" if "j < length ts" for j
  proof -
    have "map (candidate A exp_f ix p) ts ! j = candidate A exp_f ix p (ts ! j)"
      using that by simp
    moreover have "map Some cs ! j = Some (cs ! j)"
      using that len by simp
    ultimately show ?thesis using eq by simp
  qed
  with len show ?thesis by simp
qed

lemma candidate_Some:
  assumes "candidate A exp_f ix p (u, a, b) = Some c"
  shows "\<exists>xa xb. cell ix (X p) u a = Some xa \<and> cell ix (X p) u b = Some xb
           \<and> c = \<lparr>User = u, Choices = [a, b],
                   weight = exp_f (fdiv A (fneg A (fabs A (fsub A xa xb))) (T p))\<rparr>"
  using assms by (auto split: option.splits)

lemma walk_result:
  assumes "walk A ix p off cs = Some q"
    and "\<forall>c \<in> set cs. \<exists>a b. Choices c = [a, b]"
  shows "\<exists>c \<in> set cs. \<exists>a b. Choices c = [a, b] \<and> User q = User c \<and> weight q = weight c
           \<and> (Choices q = [a, b] \<or> Choices q = [b, a])"
  using assms
proof (induction cs arbitrary: off)
  case Nil
  then show ?case by simp
next
  case (Cons c cs)
  from Cons.prems(2) obtain a b where ab: "Choices c = [a, b]" by auto
  show ?case
  proof (cases "flt A off (weight c)")
    case True
    with Cons.prems(1) ab show ?thesis
      by (auto simp: elem_def split: option.splits if_splits)
  next
    case False
    with Cons.prems(1) have "walk A ix p (fsub A off (weight c)) cs = Some q" by simp
    with Cons.IH Cons.prems(2) show ?thesis by auto
  qed
qed

lemma eligible_1_2: "eligible 1 2 f = (if f < 0 \<or> f = 0 then [(0, 0, 1), (0, 1, 0)] else [])"
  by (simp add: eligible_def pairs_def upto.simps)

lemma cells_fresh12:
  "cell rowmajor (X fresh12) 0 0 = Some 0" "cell rowmajor (X fresh12) 0 1 = Some 0"
  by (simp_all add: cell_def rowmajor_def fresh12_def)

lemma Generate_fresh12:
  assumes "f = - 1 \<or> f = 0"
  shows "Generate exact exp rowmajor fresh12 f (1 / 2)
     = (Some picked, fresh12)"
proof -
  have "Shape (X fresh12) = [1, 2]" by (simp add: fresh12_def)
  from Generate_those [OF this, of exact exp rowmajor f "1 / 2"] assms show ?thesis
    by (auto simp: eligible_1_2 cells_fresh12 exact_sel elem_def picked_def)
qed

text \<open>
  Claim C8. A query that \<open>Generate(f)\<close> returns on an engine of \<open>users\<close> by \<open>items\<close> has two
  choices, different from each other and both in \<open>[0, items)\<close>, and a user in
  \<open>[0, users)\<close>, which is \<open>f\<close> when \<open>f\<close> is not negative. This holds for any arithmetic.
\<close>

theorem Generate_well_formed:
  assumes "Generate A exp_f ix p f r = (Some q, p')"
    and "Shape (X p) = [users, items]"
  shows "\<exists>a b. Choices q = [a, b] \<and> a \<noteq> b \<and> 0 \<le> a \<and> a < items \<and> 0 \<le> b \<and> b < items
           \<and> 0 \<le> User q \<and> User q < users \<and> (0 \<le> f \<longrightarrow> User q = f)"
proof -
  from assms obtain cs where
    cs: "those (map (candidate A exp_f ix p) (eligible users items f)) = Some cs"
    and w: "walk A ix p (fmul A r (foldl (fadd A) (fnum A 0) (map weight cs))) cs = Some q"
    by (auto simp: Generate_those split: option.splits)
  let ?ts = "eligible users items f"
  have len: "length cs = length ?ts"
    and nth: "\<forall>j < length ?ts. candidate A exp_f ix p (?ts ! j) = Some (cs ! j)"
    using those_candidates [OF cs] by auto
  have good: "\<exists>u a b. (u, a, b) \<in> set ?ts \<and> User c = u \<and> Choices c = [a, b]" if "c \<in> set cs" for c
  proof -
    from that obtain j where j: "j < length cs" "c = cs ! j"
      by (auto simp: in_set_conv_nth)
    obtain u a b where t: "?ts ! j = (u, a, b)" by (cases "?ts ! j")
    have "candidate A exp_f ix p (u, a, b) = Some c"
      using nth j len t by auto
    then have "User c = u \<and> Choices c = [a, b]"
      using candidate_Some by fastforce
    moreover have "(u, a, b) \<in> set ?ts"
      using j len t by (metis nth_mem)
    ultimately show ?thesis by blast
  qed
  then have "\<forall>c \<in> set cs. \<exists>a b. Choices c = [a, b]" by blast
  from walk_result [OF w this] obtain c a b where
    c: "c \<in> set cs" "Choices c = [a, b]" "User q = User c"
       "Choices q = [a, b] \<or> Choices q = [b, a]"
    by blast
  from good [OF c(1)] c(2) have "(User c, a, b) \<in> set ?ts" by auto
  then have "0 \<le> User c \<and> User c < users \<and> (f < 0 \<or> f = User c)
            \<and> 0 \<le> a \<and> a < items \<and> 0 \<le> b \<and> b < items \<and> a \<noteq> b"
    by (simp add: eligible_set)
  with c(3,4) show ?thesis by auto
qed

theorem Generate_well_formed_witness:
  "Generate exact exp rowmajor fresh12 0 (1 / 2)
     = (Some picked, fresh12)
   \<and> Shape (X fresh12) = [1, 2]
   \<and> (\<exists>a b. Choices picked = [a, b] \<and> a \<noteq> b
         \<and> 0 \<le> a \<and> a < 2 \<and> 0 \<le> b \<and> b < 2
         \<and> 0 \<le> User picked
         \<and> User picked < 1
         \<and> User picked = 0)"
proof -
  have g: "Generate exact exp rowmajor fresh12 0 (1 / 2)
      = (Some picked, fresh12)"
    by (rule Generate_fresh12) simp
  have s: "Shape (X fresh12) = [1, 2]" by (simp add: fresh12_def)
  from Generate_well_formed [OF g s] g s show ?thesis by (simp add: picked_def)
qed

subsection \<open>Where the walk stops\<close>

text \<open>
  For any arithmetic: the walk returns a query exactly when there is a candidate whose
  weight exceeds what is left of the draw, and it returns the first such candidate, best
  first. The cells the walk reads to order the pair are cells the loops have read
  already, so the ordering cannot fail.
\<close>

lemma left_of_0: "left_of A draw cs 0 = draw"
  by (simp add: left_of_def)

lemma left_of_Suc: "left_of A draw (c # cs) (Suc j) = left_of A (fsub A draw (weight c)) cs j"
  by (simp add: left_of_def)

lemma stops_at_Cons:
  "stops_at A draw (c # cs) k \<longleftrightarrow>
     (if flt A draw (weight c) then k = 0
      else \<exists>k'. k = Suc k' \<and> stops_at A (fsub A draw (weight c)) cs k')"
proof (cases k)
  case 0
  then show ?thesis by (simp add: stops_at_def left_of_0)
next
  case (Suc k')
  have "(\<forall>j < Suc k'. \<not> flt A (left_of A draw (c # cs) j) (weight ((c # cs) ! j)))
      \<longleftrightarrow> \<not> flt A draw (weight c)
          \<and> (\<forall>j < k'. \<not> flt A (left_of A (fsub A draw (weight c)) cs j) (weight (cs ! j)))"
    (is "?l \<longleftrightarrow> ?r")
  proof
    assume l: ?l
    from l have "\<not> flt A (left_of A draw (c # cs) 0) (weight ((c # cs) ! 0))" by blast
    then have a: "\<not> flt A draw (weight c)" by (simp add: left_of_0)
    have "\<not> flt A (left_of A (fsub A draw (weight c)) cs j) (weight (cs ! j))" if "j < k'" for j
    proof -
      from that l have "\<not> flt A (left_of A draw (c # cs) (Suc j)) (weight ((c # cs) ! Suc j))"
        by (metis Suc_less_eq)
      then show ?thesis by (simp add: left_of_Suc)
    qed
    with a show ?r by blast
  next
    assume r: ?r
    show ?l
    proof (intro allI impI)
      fix j assume j: "j < Suc k'"
      show "\<not> flt A (left_of A draw (c # cs) j) (weight ((c # cs) ! j))"
      proof (cases j)
        case 0
        with r show ?thesis by (simp add: left_of_0)
      next
        case (Suc i)
        with j r show ?thesis by (simp add: left_of_Suc)
      qed
    qed
  qed
  then show ?thesis
    using Suc by (auto simp: stops_at_def left_of_Suc)
qed

lemma stops_at_Nil: "\<not> stops_at A draw [] k"
  by (simp add: stops_at_def)

lemma walk_stops:
  "walk A ix p draw cs = Some q
     \<longleftrightarrow> (\<exists>k. stops_at A draw cs k \<and> best_first A ix p (cs ! k) = Some q)"
  if "\<forall>c \<in> set cs. \<exists>a b. Choices c = [a, b]"
  using that
proof (induction cs arbitrary: draw)
  case Nil
  show ?case by (simp add: stops_at_Nil)
next
  case (Cons c cs)
  from Cons.prems obtain a b where ab: "Choices c = [a, b]" by auto
  show ?case
  proof (cases "flt A draw (weight c)")
    case True
    have "walk A ix p draw (c # cs) = best_first A ix p c"
      using True ab by (simp add: best_first_def elem_def split: option.splits)
    with True show ?thesis by (simp add: stops_at_Cons)
  next
    case False
    from Cons.prems have "\<forall>c \<in> set cs. \<exists>a b. Choices c = [a, b]" by simp
    from Cons.IH [OF this, of "fsub A draw (weight c)"] False show ?thesis
      by (auto simp: stops_at_Cons)
  qed
qed

lemma pairs_of_candidates:
  assumes "those (map (candidate A exp_f ix p) ts) = Some cs"
  shows "\<forall>c \<in> set cs. \<exists>a b xa xb. Choices c = [a, b] \<and> cell ix (X p) (User c) a = Some xa
           \<and> cell ix (X p) (User c) b = Some xb"
proof
  fix c assume "c \<in> set cs"
  then obtain j where j: "j < length cs" "c = cs ! j"
    by (auto simp: in_set_conv_nth)
  obtain u a b where t: "ts ! j = (u, a, b)" by (cases "ts ! j")
  from those_candidates [OF assms] j t have "candidate A exp_f ix p (u, a, b) = Some c"
    by auto
  from candidate_Some [OF this]
  show "\<exists>a b xa xb. Choices c = [a, b] \<and> cell ix (X p) (User c) a = Some xa
           \<and> cell ix (X p) (User c) b = Some xb"
    by auto
qed

lemma Generate_stops:
  assumes "Shape (X p) = [users, items]"
  shows "fst (Generate A exp_f ix p f r) = Some q \<longleftrightarrow>
     (\<exists>cs k. those (map (candidate A exp_f ix p) (eligible users items f)) = Some cs
        \<and> stops_at A (fmul A r (foldl (fadd A) (fnum A 0) (map weight cs))) cs k
        \<and> best_first A ix p (cs ! k) = Some q)"
proof (cases "those (map (candidate A exp_f ix p) (eligible users items f))")
  case None
  then show ?thesis by (simp add: Generate_those [OF assms])
next
  case (Some cs)
  from pairs_of_candidates [OF Some] have "\<forall>c \<in> set cs. \<exists>a b. Choices c = [a, b]"
    by blast
  from walk_stops [OF this] Some show ?thesis
    by (simp add: Generate_those [OF assms])
qed

lemma best_first_Some:
  assumes "Choices c = [a, b]" and "cell ix (X p) (User c) a = Some xa"
    and "cell ix (X p) (User c) b = Some xb"
  shows "best_first A ix p c = Some (if flt A xa xb then c\<lparr>Choices := [b, a]\<rparr> else c)"
  using assms by (simp add: best_first_def)

lemma cell_in_Data: "cell ix a u c = Some x \<Longrightarrow> x \<in> set (Data a)"
  by (auto simp: cell_def split: option.splits if_splits)

lemma best_first_scores:
  assumes "best_first A ix p c = Some q"
    and "\<forall>x \<in> set (Data (X p)). \<forall>y \<in> set (Data (X p)). flt A x y \<longleftrightarrow> v x < (v y :: real)"
  shows "User q = User c \<and> weight q = weight c \<and> set (Choices q) = set (Choices c)
       \<and> (\<exists>i0 i1 x0 x1. Choices q = [i0, i1] \<and> cell ix (X p) (User q) i0 = Some x0
             \<and> cell ix (X p) (User q) i1 = Some x1 \<and> v x1 \<le> v x0)"
proof -
  from assms(1) obtain a b xa xb where c: "Choices c = [a, b]"
    "cell ix (X p) (User c) a = Some xa" "cell ix (X p) (User c) b = Some xb"
    and q: "q = (if flt A xa xb then c\<lparr>Choices := [b, a]\<rparr> else c)"
    by (auto simp: best_first_def split: list.splits option.splits)
  from c have "xa \<in> set (Data (X p))" "xb \<in> set (Data (X p))"
    by (auto dest: cell_in_Data)
  with assms(2) have lt: "flt A xa xb \<longleftrightarrow> v xa < v xb" by blast
  show ?thesis
  proof (cases "flt A xa xb")
    case True
    with lt have "v xa \<le> v xb" by simp
    with True q c show ?thesis by auto
  next
    case False
    with lt have "v xb \<le> v xa" by simp
    with False q c show ?thesis by auto
  qed
qed

subsection \<open>Generate on the engine quarters13, in binary64\<close>

lemma eligible_1_3:
  "eligible 1 3 (- 1) = [(0, 0, 1), (0, 0, 2), (0, 1, 0), (0, 1, 2), (0, 2, 0), (0, 2, 1)]"
  by (simp add: eligible_def pairs_def upto.simps)

lemma ops_quarters13:
  "b64_sub (Float 0 0) (Float 1 (- 2)) = Float (- 1) (- 2)"
  "b64_div (Float (- 1) (- 2)) (Float 1 0) = Float (- 1) (- 2)"
  "b64_add (Float 0 0) (Float 7014813832872459 (- 53)) = Float 7014813832872459 (- 53)"
  "b64_sub (Float 0 0) (Float 1 (- 1)) = Float (- 1) (- 1)"
  "b64_div (Float (- 1) (- 1)) (Float 1 0) = Float (- 1) (- 1)"
  "b64_add (Float 7014813832872459 (- 53)) (Float 2731571253070597 (- 52)) = Float 3119489084753413 (- 51)"
  "b64_sub (Float 1 (- 2)) (Float 0 0) = Float 1 (- 2)"
  "b64_add (Float 3119489084753413 (- 51)) (Float 7014813832872459 (- 53)) = Float 609149067871441 (- 48)"
  "b64_sub (Float 1 (- 2)) (Float 1 (- 1)) = Float (- 1) (- 2)"
  "b64_add (Float 609149067871441 (- 48)) (Float 7014813832872459 (- 53)) = Float 6626896001189643 (- 51)"
  "b64_sub (Float 1 (- 1)) (Float 0 0) = Float 1 (- 1)"
  "b64_add (Float 6626896001189643 (- 51)) (Float 2731571253070597 (- 52)) = Float 3996340813862471 (- 50)"
  "b64_sub (Float 1 (- 1)) (Float 1 (- 2)) = Float 1 (- 2)"
  "b64_add (Float 3996340813862471 (- 50)) (Float 7014813832872459 (- 53)) = Float 609149067871441 (- 47)"
  "b64_mul (Float 1 (- 1)) (Float 609149067871441 (- 47)) = Float 609149067871441 (- 48)"
  "b64_lt (Float 609149067871441 (- 48)) (Float 7014813832872459 (- 53)) \<longleftrightarrow> False"
  "b64_sub (Float 609149067871441 (- 48)) (Float 7014813832872459 (- 53)) = Float 3119489084753413 (- 51)"
  "b64_lt (Float 3119489084753413 (- 51)) (Float 2731571253070597 (- 52)) \<longleftrightarrow> False"
  "b64_sub (Float 3119489084753413 (- 51)) (Float 2731571253070597 (- 52)) = Float 3507406916436229 (- 52)"
  "b64_lt (Float 3507406916436229 (- 52)) (Float 7014813832872459 (- 53)) \<longleftrightarrow> True"
  "b64_lt (Float 1 (- 2)) (Float 0 0) \<longleftrightarrow> False"
  "b64_lt (Float 609149067871441 (- 48)) (Float 3119489084753413 (- 51)) \<longleftrightarrow> False"
  "b64_lt (Float 609149067871441 (- 48)) (Float 609149067871441 (- 48)) \<longleftrightarrow> False"
  "b64_lt (Float 609149067871441 (- 48)) (Float 6626896001189643 (- 51)) \<longleftrightarrow> True"
  by (simp_all add: b64_eval)

lemma ops_first:
  "b64_mul (Float 0 0) (Float 609149067871441 (- 47)) = Float 0 0"
  "b64_lt (Float 0 0) (Float 7014813832872459 (- 53)) \<longleftrightarrow> True"
  "b64_lt (Float 0 0) (Float 1 (- 2)) \<longleftrightarrow> True"
  "b64_lt (Float 1 (- 2)) (Float 0 0) \<longleftrightarrow> False"
  by (simp_all add: b64_eval)

lemma cells_quarters13:
  "cell rowmajor (X quarters13) 0 0 = Some (Float 0 0)"
  "cell rowmajor (X quarters13) 0 1 = Some (Float 1 (- 2))"
  "cell rowmajor (X quarters13) 0 2 = Some (Float 1 (- 1))"
  by (simp_all add: cell_def rowmajor_def quarters13_def)

lemma candidates_quarters13:
  "those (map (candidate b64 exp64 rowmajor quarters13) (eligible 1 3 (- 1)))
     = Some quarters13_candidates"
  by (simp add: eligible_1_3 cells_quarters13 b64_sel ops_quarters13 exp64_val
      quarters13_candidates_def)
     (simp add: quarters13_def ops_quarters13 exp64_val)

text \<open>
  For the draw \<open>r = 0.5\<close> the walk stops at the third candidate, the pair \<open>(1, 0)\<close>; for
  \<open>r = 0\<close> it stops at the first, the pair \<open>(0, 1)\<close>, whose items it exchanges, since
  item 0 is scored \<open>0\<close> and item 1 is scored \<open>0.25\<close>.
\<close>

lemma Generate_quarters13:
  "Generate b64 exp64 rowmajor quarters13 (- 1) (Float 1 (- 1))
     = (Some \<lparr>User = 0, Choices = [1, 0], weight = Float 7014813832872459 (- 53)\<rparr>, quarters13)"
proof -
  have s: "Shape (X quarters13) = [1, 3]" by (simp add: quarters13_def)
  show ?thesis
    by (simp add: Generate_those [OF s] candidates_quarters13 quarters13_candidates_def b64_sel
        zero_val ops_quarters13 elem_def cells_quarters13)
qed

lemma Generate_quarters13_first:
  "Generate b64 exp64 rowmajor quarters13 (- 1) (Float 0 0)
     = (Some \<lparr>User = 0, Choices = [1, 0], weight = Float 7014813832872459 (- 53)\<rparr>, quarters13)"
proof -
  have s: "Shape (X quarters13) = [1, 3]" by (simp add: quarters13_def)
  show ?thesis
    by (simp add: Generate_those [OF s] candidates_quarters13 quarters13_candidates_def b64_sel
        zero_val ops_quarters13 ops_first elem_def cells_quarters13)
qed

lemma quarters13_order:
  "\<forall>x \<in> set (Data (X quarters13)). \<forall>y \<in> set (Data (X quarters13)).
     flt b64 x y \<longleftrightarrow> value_of x < value_of y"
  by (rule b64_finite_order) (simp add: quarters13_def)

subsection \<open>The order of the returned pair\<close>

text \<open>
  Claim C6. For any arithmetic in which \<open><\<close>, on the scores the engine holds, is the
  order of the numbers \<open>v x\<close> they stand for (in binary64 it is when the scores are
  finite, \<open>b64_finite_order\<close>): a query that \<open>Generate\<close> returns has two choices whose
  cells in \<open>Current\<close>, in the row of the query's user, can be read, and the score of the
  first is greater than or equal to the score of the second. And whenever the walk
  stops at a candidate, \<open>Generate\<close> does return a query, for that candidate's user and
  with that candidate's two items: ordering the pair never makes it fail.
\<close>

theorem Generate_best_first:
  assumes "Shape (X p) = [users, items]"
    and "\<forall>x \<in> set (Data (X p)). \<forall>y \<in> set (Data (X p)). flt A x y \<longleftrightarrow> v x < (v y :: real)"
  shows "(\<forall>q. fst (Generate A exp_f ix p f r) = Some q \<longrightarrow>
            (\<exists>i0 i1 x0 x1. Choices q = [i0, i1] \<and> cell ix (X p) (User q) i0 = Some x0
               \<and> cell ix (X p) (User q) i1 = Some x1 \<and> v x1 \<le> v x0))
       \<and> (\<forall>cs k. those (map (candidate A exp_f ix p) (eligible users items f)) = Some cs
              \<and> stops_at A (fmul A r (foldl (fadd A) (fnum A 0) (map weight cs))) cs k \<longrightarrow>
            (\<exists>q. fst (Generate A exp_f ix p f r) = Some q \<and> User q = User (cs ! k)
               \<and> set (Choices q) = set (Choices (cs ! k))))"
proof (intro conjI allI impI)
  fix q assume "fst (Generate A exp_f ix p f r) = Some q"
  then obtain cs k where "best_first A ix p (cs ! k) = Some q"
    using Generate_stops [OF assms(1)] by blast
  from best_first_scores [OF this assms(2)]
  show "\<exists>i0 i1 x0 x1. Choices q = [i0, i1] \<and> cell ix (X p) (User q) i0 = Some x0
               \<and> cell ix (X p) (User q) i1 = Some x1 \<and> v x1 \<le> v x0"
    by blast
next
  fix cs k
  assume a: "those (map (candidate A exp_f ix p) (eligible users items f)) = Some cs
      \<and> stops_at A (fmul A r (foldl (fadd A) (fnum A 0) (map weight cs))) cs k"
  then have "k < length cs" by (simp add: stops_at_def)
  then have "cs ! k \<in> set cs" by simp
  with pairs_of_candidates a obtain a' b xa xb where c: "Choices (cs ! k) = [a', b]"
    "cell ix (X p) (User (cs ! k)) a' = Some xa" "cell ix (X p) (User (cs ! k)) b = Some xb"
    by blast
  define q where "q = (if flt A xa xb then (cs ! k)\<lparr>Choices := [b, a']\<rparr> else cs ! k)"
  have bf: "best_first A ix p (cs ! k) = Some q"
    unfolding q_def using c by (rule best_first_Some)
  with a have "fst (Generate A exp_f ix p f r) = Some q"
    using Generate_stops [OF assms(1)] by blast
  moreover from best_first_scores [OF bf assms(2)]
  have "User q = User (cs ! k) \<and> set (Choices q) = set (Choices (cs ! k))" by blast
  ultimately show "\<exists>q. fst (Generate A exp_f ix p f r) = Some q \<and> User q = User (cs ! k)
               \<and> set (Choices q) = set (Choices (cs ! k))"
    by blast
qed

text \<open>
  On \<open>quarters13\<close>, for the draw \<open>r = 0\<close>, the walk stops at the first candidate, the pair
  \<open>(0, 1)\<close> with the scores \<open>0\<close> and \<open>0.25\<close>, and the query returned has the items
  \<open>[1, 0]\<close>.
\<close>

lemma stops_quarters13_first:
  "stops_at b64
     (fmul b64 (Float 0 0) (foldl (fadd b64) (fnum b64 0) (map weight quarters13_candidates)))
     quarters13_candidates 0"
  by (simp add: stops_at_def left_of_def quarters13_candidates_def b64_sel zero_val
      ops_quarters13 ops_first)

theorem Generate_best_first_witness:
  "Shape (X quarters13) = [1, 3]
   \<and> those (map (candidate b64 exp64 rowmajor quarters13) (eligible 1 3 (- 1)))
     = Some quarters13_candidates
   \<and> stops_at b64
        (fmul b64 (Float 0 0) (foldl (fadd b64) (fnum b64 0) (map weight quarters13_candidates)))
        quarters13_candidates 0
   \<and> Choices (quarters13_candidates ! 0) = [0, 1]
   \<and> Generate b64 exp64 rowmajor quarters13 (- 1) (Float 0 0)
     = (Some \<lparr>User = 0, Choices = [1, 0], weight = Float 7014813832872459 (- 53)\<rparr>, quarters13)
   \<and> (\<exists>i0 i1 x0 x1.
         Choices \<lparr>User = 0, Choices = [1, 0], weight = Float 7014813832872459 (- 53)\<rparr> = [i0, i1]
       \<and> cell rowmajor (X quarters13) 0 i0 = Some x0
       \<and> cell rowmajor (X quarters13) 0 i1 = Some x1 \<and> value_of x1 \<le> value_of x0)
   \<and> cell rowmajor (X quarters13) 0 1 = Some (Float 1 (- 2))
   \<and> cell rowmajor (X quarters13) 0 0 = Some (Float 0 0)"
proof -
  have s: "Shape (X quarters13) = [1, 3]" by (simp add: quarters13_def)
  have c0: "Choices (quarters13_candidates ! 0) = [0, 1]"
    by (simp add: quarters13_candidates_def)
  note g = Generate_quarters13_first
  from Generate_best_first [OF s quarters13_order, of exp64 rowmajor "- 1" "Float 0 0"] g
  have "\<exists>i0 i1 x0 x1.
         Choices \<lparr>User = 0, Choices = [1, 0], weight = Float 7014813832872459 (- 53)\<rparr> = [i0, i1]
       \<and> cell rowmajor (X quarters13)
           (User \<lparr>User = 0, Choices = [1, 0], weight = Float 7014813832872459 (- 53)\<rparr>) i0 = Some x0
       \<and> cell rowmajor (X quarters13)
           (User \<lparr>User = 0, Choices = [1, 0], weight = Float 7014813832872459 (- 53)\<rparr>) i1 = Some x1
       \<and> value_of x1 \<le> value_of x0"
    by (metis fst_conv)
  then have "\<exists>i0 i1 x0 x1.
         Choices \<lparr>User = 0, Choices = [1, 0], weight = Float 7014813832872459 (- 53)\<rparr> = [i0, i1]
       \<and> cell rowmajor (X quarters13) 0 i0 = Some x0
       \<and> cell rowmajor (X quarters13) 0 i1 = Some x1 \<and> value_of x1 \<le> value_of x0"
    by simp
  with s candidates_quarters13 stops_quarters13_first c0 g cells_quarters13(1,2) show ?thesis
    by (intro conjI)
qed

subsection \<open>The candidate that is chosen\<close>

text \<open>
  Claim C4, with the choice as the source makes it. For any arithmetic, on an engine of
  \<open>users\<close> by \<open>items\<close>: the candidates are the triples \<open>(u, a, b)\<close> of \<open>eligible\<close>, that is
  every user (the user \<open>f\<close> alone when \<open>f\<close> is not negative) with every ordered pair of
  distinct items; the candidate at position \<open>j\<close> has the weight
  \<open>exp(-|Current[u][a] - Current[u][b]| / T)\<close>; and \<open>Generate(f)\<close> returns a query \<open>q\<close>
  exactly when \<open>q\<close> is, best first, the candidate at the first position \<open>k\<close> whose weight
  exceeds what is left of the draw, \<open>r\<close> times the sum of all weights, when the weights
  of the candidates before \<open>k\<close> have been subtracted from it one after the other.
\<close>

theorem Generate_weighted_choice:
  assumes "Shape (X p) = [users, items]"
  shows "set (eligible users items f) =
           {(u, a, b). 0 \<le> u \<and> u < users \<and> (f < 0 \<or> f = u)
              \<and> 0 \<le> a \<and> a < items \<and> 0 \<le> b \<and> b < items \<and> a \<noteq> b}
       \<and> (\<forall>cs. those (map (candidate A exp_f ix p) (eligible users items f)) = Some cs \<longrightarrow>
            length cs = length (eligible users items f)
          \<and> (\<forall>j < length cs. \<exists>u a b xa xb. eligible users items f ! j = (u, a, b)
                \<and> cell ix (X p) u a = Some xa \<and> cell ix (X p) u b = Some xb
                \<and> cs ! j = \<lparr>User = u, Choices = [a, b],
                     weight = exp_f (fdiv A (fneg A (fabs A (fsub A xa xb))) (T p))\<rparr>))
       \<and> (\<forall>q. fst (Generate A exp_f ix p f r) = Some q \<longleftrightarrow>
            (\<exists>cs k. those (map (candidate A exp_f ix p) (eligible users items f)) = Some cs
               \<and> stops_at A (fmul A r (foldl (fadd A) (fnum A 0) (map weight cs))) cs k
               \<and> best_first A ix p (cs ! k) = Some q))"
proof (intro conjI allI impI)
  show "set (eligible users items f) =
           {(u, a, b). 0 \<le> u \<and> u < users \<and> (f < 0 \<or> f = u)
              \<and> 0 \<le> a \<and> a < items \<and> 0 \<le> b \<and> b < items \<and> a \<noteq> b}"
    by (rule eligible_set_eq)
next
  fix cs assume cs: "those (map (candidate A exp_f ix p) (eligible users items f)) = Some cs"
  from those_candidates [OF cs] show "length cs = length (eligible users items f)" by simp
next
  fix cs j
  assume cs: "those (map (candidate A exp_f ix p) (eligible users items f)) = Some cs"
    and j: "j < length cs"
  let ?ts = "eligible users items f"
  obtain u a b where t: "?ts ! j = (u, a, b)" by (cases "?ts ! j")
  from those_candidates [OF cs] j t have "candidate A exp_f ix p (u, a, b) = Some (cs ! j)"
    by auto
  from candidate_Some [OF this] t
  show "\<exists>u a b xa xb. ?ts ! j = (u, a, b)
          \<and> cell ix (X p) u a = Some xa \<and> cell ix (X p) u b = Some xb
          \<and> cs ! j = \<lparr>User = u, Choices = [a, b],
               weight = exp_f (fdiv A (fneg A (fabs A (fsub A xa xb))) (T p))\<rparr>"
    by auto
next
  fix q
  show "fst (Generate A exp_f ix p f r) = Some q \<longleftrightarrow>
            (\<exists>cs k. those (map (candidate A exp_f ix p) (eligible users items f)) = Some cs
               \<and> stops_at A (fmul A r (foldl (fadd A) (fnum A 0) (map weight cs))) cs k
               \<and> best_first A ix p (cs ! k) = Some q)"
    by (rule Generate_stops [OF assms])
qed

theorem Generate_weighted_choice_witness:
  "Shape (X quarters13) = [1, 3]
   \<and> fst (Generate b64 exp64 rowmajor quarters13 (- 1) (Float 1 (- 1)))
     = Some \<lparr>User = 0, Choices = [1, 0], weight = Float 7014813832872459 (- 53)\<rparr>
   \<and> (\<exists>cs k. those (map (candidate b64 exp64 rowmajor quarters13) (eligible 1 3 (- 1))) = Some cs
         \<and> stops_at b64 (fmul b64 (Float 1 (- 1)) (foldl (fadd b64) (fnum b64 0) (map weight cs))) cs k
         \<and> best_first b64 rowmajor quarters13 (cs ! k)
           = Some \<lparr>User = 0, Choices = [1, 0], weight = Float 7014813832872459 (- 53)\<rparr>)
   \<and> length quarters13_candidates = length (eligible 1 3 (- 1))"
proof -
  have s: "Shape (X quarters13) = [1, 3]" by (simp add: quarters13_def)
  note c = Generate_weighted_choice [OF s, of "- 1" b64 exp64 rowmajor "Float 1 (- 1)"]
  have g: "fst (Generate b64 exp64 rowmajor quarters13 (- 1) (Float 1 (- 1)))
     = Some \<lparr>User = 0, Choices = [1, 0], weight = Float 7014813832872459 (- 53)\<rparr>"
    by (simp add: Generate_quarters13)
  from c g have "\<exists>cs k. those (map (candidate b64 exp64 rowmajor quarters13) (eligible 1 3 (- 1))) = Some cs
         \<and> stops_at b64 (fmul b64 (Float 1 (- 1)) (foldl (fadd b64) (fnum b64 0) (map weight cs))) cs k
         \<and> best_first b64 rowmajor quarters13 (cs ! k)
           = Some \<lparr>User = 0, Choices = [1, 0], weight = Float 7014813832872459 (- 53)\<rparr>"
    by blast
  moreover from c candidates_quarters13
  have "length quarters13_candidates = length (eligible 1 3 (- 1))"
    by blast
  ultimately show ?thesis using s g by (intro conjI)
qed

text \<open>
  In exact arithmetic the candidate at which the walk stops is the first candidate whose
  cumulative weight exceeds the draw, as the specification words it.
\<close>

lemma foldl_add_sum: "foldl (+) s ws = s + sum_list (ws :: real list)"
  by (induction ws arbitrary: s) simp_all

lemma walk_exact_first:
  assumes "walk exact ix p off cs = Some q"
    and "\<forall>c \<in> set cs. \<exists>a b. Choices c = [a, b]"
  shows "\<exists>k < length cs.
           (q = cs ! k \<or> q = (cs ! k)\<lparr>Choices := rev (Choices (cs ! k))\<rparr>)
         \<and> off < sum_list (map weight (take (Suc k) cs))
         \<and> (\<forall>j < k. sum_list (map weight (take (Suc j) cs)) \<le> off)"
  using assms
proof (induction cs arbitrary: off)
  case Nil
  then show ?case by simp
next
  case (Cons c cs)
  from Cons.prems(2) obtain a b where ab: "Choices c = [a, b]" by auto
  show ?case
  proof (cases "off < weight c")
    case True
    with Cons.prems(1) ab have "q = c \<or> q = c\<lparr>Choices := rev (Choices c)\<rparr>"
      by (auto simp: exact_sel elem_def split: option.splits if_splits)
    with True show ?thesis
      by (intro exI [of _ 0]) simp
  next
    case False
    with Cons.prems(1) have w: "walk exact ix p (off - weight c) cs = Some q"
      by (simp add: exact_sel)
    from Cons.prems(2) have "\<forall>c \<in> set cs. \<exists>a b. Choices c = [a, b]" by simp
    from Cons.IH [OF w this] obtain k where k: "k < length cs"
      "q = cs ! k \<or> q = (cs ! k)\<lparr>Choices := rev (Choices (cs ! k))\<rparr>"
      "off - weight c < sum_list (map weight (take (Suc k) cs))"
      "\<forall>j < k. sum_list (map weight (take (Suc j) cs)) \<le> off - weight c"
      by blast
    have "\<forall>j < Suc k. sum_list (map weight (take (Suc j) (c # cs))) \<le> off"
    proof (intro allI impI)
      fix j assume j: "j < Suc k"
      show "sum_list (map weight (take (Suc j) (c # cs))) \<le> off"
      proof (cases j)
        case 0
        with False show ?thesis by simp
      next
        case (Suc i)
        with j k(4) have "sum_list (map weight (take (Suc i) cs)) \<le> off - weight c" by simp
        with Suc show ?thesis by simp
      qed
    qed
    with k(1,2,3) show ?thesis
      by (intro exI [of _ "Suc k"]) simp
  qed
qed

lemma Generate_exact_cumulative:
  assumes "Generate exact exp ix p f r = (Some q, p')"
    and "Shape (X p) = [users, items]"
    and "T p \<noteq> 0"
  shows "set (eligible users items f) =
           {(u, a, b). 0 \<le> u \<and> u < users \<and> (f < 0 \<or> f = u)
              \<and> 0 \<le> a \<and> a < items \<and> 0 \<le> b \<and> b < items \<and> a \<noteq> b}
       \<and> (\<exists>cs k. length cs = length (eligible users items f)
            \<and> (\<forall>j < length cs. \<exists>u a b xa xb. eligible users items f ! j = (u, a, b)
                  \<and> cell ix (X p) u a = Some xa \<and> cell ix (X p) u b = Some xb
                  \<and> cs ! j = \<lparr>User = u, Choices = [a, b], weight = exp (- \<bar>xa - xb\<bar> / T p)\<rparr>)
            \<and> k < length cs
            \<and> (q = cs ! k \<or> q = (cs ! k)\<lparr>Choices := rev (Choices (cs ! k))\<rparr>)
            \<and> r * sum_list (map weight cs) < sum_list (map weight (take (Suc k) cs))
            \<and> (\<forall>j < k. sum_list (map weight (take (Suc j) cs)) \<le> r * sum_list (map weight cs)))"
proof -
  let ?ts = "eligible users items f"
  from assms obtain cs where
    cs: "those (map (candidate exact exp ix p) ?ts) = Some cs"
    and w: "walk exact ix p (r * sum_list (map weight cs)) cs = Some q"
    by (auto simp: Generate_those exact_sel foldl_add_sum split: option.splits)
  have len: "length cs = length ?ts"
    and nth: "\<forall>j < length ?ts. candidate exact exp ix p (?ts ! j) = Some (cs ! j)"
    using those_candidates [OF cs] by auto
  have shape: "\<exists>u a b xa xb. ?ts ! j = (u, a, b)
        \<and> cell ix (X p) u a = Some xa \<and> cell ix (X p) u b = Some xb
        \<and> cs ! j = \<lparr>User = u, Choices = [a, b], weight = exp (- \<bar>xa - xb\<bar> / T p)\<rparr>"
    if "j < length cs" for j
  proof -
    obtain u a b where t: "?ts ! j = (u, a, b)" by (cases "?ts ! j")
    have "candidate exact exp ix p (u, a, b) = Some (cs ! j)"
      using nth that len t by auto
    from candidate_Some [OF this] t show ?thesis
      by (auto simp: exact_sel)
  qed
  then have pairs: "\<forall>c \<in> set cs. \<exists>a b. Choices c = [a, b]"
    by (fastforce simp: in_set_conv_nth)
  from walk_exact_first [OF w pairs] obtain k where
    "k < length cs" "q = cs ! k \<or> q = (cs ! k)\<lparr>Choices := rev (Choices (cs ! k))\<rparr>"
    "r * sum_list (map weight cs) < sum_list (map weight (take (Suc k) cs))"
    "\<forall>j < k. sum_list (map weight (take (Suc j) cs)) \<le> r * sum_list (map weight cs)"
    by blast
  with len shape eligible_set_eq show ?thesis by blast
qed

text \<open>
  In binary64 it need not be. On \<open>quarters13\<close> the six weights are \<open>a, b, a, a, b, a\<close> with
  \<open>a = exp(-0.25)\<close> and \<open>b = exp(-0.5)\<close>, and for \<open>r = 0.5\<close> the draw is the sum of the first
  three, in the real numbers and in binary64 alike. The cumulative weight first exceeds
  the draw at the fourth candidate, the pair \<open>(1, 2)\<close>, whether the weights are added in
  binary64 or in the real numbers. The source subtracts: \<open>(draw - a) - b\<close> is rounded to
  one unit in the last place below \<open>a\<close>, and \<open>Generate\<close> returns the third candidate, the
  pair \<open>(1, 0)\<close>.
\<close>

theorem cumulative_choice_differs:
  "fst (Generate b64 exp64 rowmajor quarters13 (- 1) (Float 1 (- 1)))
     = Some \<lparr>User = 0, Choices = [1, 0], weight = Float 7014813832872459 (- 53)\<rparr>
   \<and> those (map (candidate b64 exp64 rowmajor quarters13) (eligible 1 3 (- 1)))
     = Some quarters13_candidates
   \<and> cumulative_choice b64 (Float 1 (- 1)) quarters13_candidates
     = Some \<lparr>User = 0, Choices = [1, 2], weight = Float 7014813832872459 (- 53)\<rparr>
   \<and> cumulative_choice exact (value_of (Float 1 (- 1))) (map in_reals quarters13_candidates)
     = Some (in_reals \<lparr>User = 0, Choices = [1, 2], weight = Float 7014813832872459 (- 53)\<rparr>)"
proof (intro conjI)
  show "fst (Generate b64 exp64 rowmajor quarters13 (- 1) (Float 1 (- 1)))
     = Some \<lparr>User = 0, Choices = [1, 0], weight = Float 7014813832872459 (- 53)\<rparr>"
    by (simp add: Generate_quarters13)
  show "those (map (candidate b64 exp64 rowmajor quarters13) (eligible 1 3 (- 1)))
     = Some quarters13_candidates"
    by (rule candidates_quarters13)
  show "cumulative_choice b64 (Float 1 (- 1)) quarters13_candidates
     = Some \<lparr>User = 0, Choices = [1, 2], weight = Float 7014813832872459 (- 53)\<rparr>"
    by (simp add: cumulative_choice_def quarters13_candidates_def b64_sel zero_val ops_quarters13)
  show "cumulative_choice exact (value_of (Float 1 (- 1))) (map in_reals quarters13_candidates)
     = Some (in_reals \<lparr>User = 0, Choices = [1, 2], weight = Float 7014813832872459 (- 53)\<rparr>)"
    by (simp add: cumulative_choice_def quarters13_candidates_def exact_sel in_reals_def)
qed

text \<open>
  The two rules also part where no sum meets the draw. On \<open>halves23\<close>, for the draw
  \<open>r = 4533975641324147 * 2^-53\<close>, the cumulative weight first exceeds the draw at the
  sixth candidate, the pair \<open>(2, 1)\<close> of user 0, in binary64 and in the real numbers,
  and \<open>Generate\<close> returns the fifth, the pair \<open>(2, 0)\<close>.
\<close>

lemma eligible_2_3:
  "eligible 2 3 (- 1) =
     [(0, 0, 1), (0, 0, 2), (0, 1, 0), (0, 1, 2), (0, 2, 0), (0, 2, 1),
      (1, 0, 1), (1, 0, 2), (1, 1, 0), (1, 1, 2), (1, 2, 0), (1, 2, 1)]"
  by (simp add: eligible_def pairs_def upto.simps)

lemma ops_halves23:
  "b64_sub (Float 0 0) (Float 0 0) = Float 0 0"
  "b64_div (Float 0 0) (Float 1 0) = Float 0 0"
  "b64_add (Float 0 0) (Float 1 0) = Float 1 0"
  "b64_sub (Float 0 0) (Float 1 (- 1)) = Float (- 1) (- 1)"
  "b64_div (Float (- 1) (- 1)) (Float 1 0) = Float (- 1) (- 1)"
  "b64_add (Float 1 0) (Float 2731571253070597 (- 52)) = Float 7235170880441093 (- 52)"
  "b64_add (Float 7235170880441093 (- 52)) (Float 1 0) = Float 2934692626952897 (- 50)"
  "b64_add (Float 2934692626952897 (- 50)) (Float 2731571253070597 (- 52)) = Float 1808792720110273 (- 49)"
  "b64_sub (Float 1 (- 1)) (Float 0 0) = Float 1 (- 1)"
  "b64_add (Float 1808792720110273 (- 49)) (Float 2731571253070597 (- 52)) = Float 4300478253488195 (- 50)"
  "b64_add (Float 4300478253488195 (- 50)) (Float 2731571253070597 (- 52)) = Float 1245842766688961 (- 48)"
  "b64_sub (Float 0 0) (Float 1 0) = Float (- 1) 0"
  "b64_div (Float (- 1) 0) (Float 1 0) = Float (- 1) 0"
  "b64_add (Float 1245842766688961 (- 48)) (Float 828390857088487 (- 51)) = Float 674695811912511 (- 47)"
  "b64_add (Float 674695811912511 (- 47)) (Float 2731571253070597 (- 52)) = Float 6080459308567737 (- 50)"
  "b64_sub (Float 1 0) (Float 0 0) = Float 1 0"
  "b64_add (Float 6080459308567737 (- 50)) (Float 828390857088487 (- 51)) = Float 1623663684277995 (- 48)"
  "b64_sub (Float 1 0) (Float 1 (- 1)) = Float 1 (- 1)"
  "b64_add (Float 1623663684277995 (- 48)) (Float 2731571253070597 (- 52)) = Float 7177547550379629 (- 50)"
  "b64_add (Float 7177547550379629 (- 50)) (Float 2731571253070597 (- 52)) = Float 3930220181823639 (- 49)"
  "b64_sub (Float 1 (- 1)) (Float 1 0) = Float (- 1) (- 1)"
  "b64_add (Float 3930220181823639 (- 49)) (Float 2731571253070597 (- 52)) = Float 8543333176914927 (- 50)"
  "b64_mul (Float 4533975641324147 (- 53)) (Float 8543333176914927 (- 50)) = Float 8600956506976391 (- 51)"
  "b64_lt (Float 8600956506976391 (- 51)) (Float 1 0) \<longleftrightarrow> False"
  "b64_sub (Float 8600956506976391 (- 51)) (Float 1 0) = Float 6349156693291143 (- 51)"
  "b64_lt (Float 6349156693291143 (- 51)) (Float 2731571253070597 (- 52)) \<longleftrightarrow> False"
  "b64_sub (Float 6349156693291143 (- 51)) (Float 2731571253070597 (- 52)) = Float 1245842766688961 (- 49)"
  "b64_lt (Float 1245842766688961 (- 49)) (Float 1 0) \<longleftrightarrow> False"
  "b64_sub (Float 1245842766688961 (- 49)) (Float 1 0) = Float 682892813267649 (- 49)"
  "b64_lt (Float 682892813267649 (- 49)) (Float 2731571253070597 (- 52)) \<longleftrightarrow> False"
  "b64_sub (Float 682892813267649 (- 49)) (Float 2731571253070597 (- 52)) = Float 2731571253070595 (- 52)"
  "b64_lt (Float 2731571253070595 (- 52)) (Float 2731571253070597 (- 52)) \<longleftrightarrow> True"
  "b64_lt (Float 1 (- 1)) (Float 0 0) \<longleftrightarrow> False"
  "b64_lt (Float 8600956506976391 (- 51)) (Float 7235170880441093 (- 52)) \<longleftrightarrow> False"
  "b64_lt (Float 8600956506976391 (- 51)) (Float 2934692626952897 (- 50)) \<longleftrightarrow> False"
  "b64_lt (Float 8600956506976391 (- 51)) (Float 1808792720110273 (- 49)) \<longleftrightarrow> False"
  "b64_lt (Float 8600956506976391 (- 51)) (Float 4300478253488195 (- 50)) \<longleftrightarrow> False"
  "b64_lt (Float 8600956506976391 (- 51)) (Float 1245842766688961 (- 48)) \<longleftrightarrow> True"
  by (simp_all add: b64_eval)

lemma cells_halves23:
  "cell rowmajor (X halves23) 0 0 = Some (Float 0 0)"
  "cell rowmajor (X halves23) 0 1 = Some (Float 0 0)"
  "cell rowmajor (X halves23) 0 2 = Some (Float 1 (- 1))"
  "cell rowmajor (X halves23) 1 0 = Some (Float 0 0)"
  "cell rowmajor (X halves23) 1 1 = Some (Float 1 0)"
  "cell rowmajor (X halves23) 1 2 = Some (Float 1 (- 1))"
  by (simp_all add: cell_def rowmajor_def halves23_def eval_nat_numeral)

lemma candidates_halves23:
  "those (map (candidate b64 exp64 rowmajor halves23) (eligible 2 3 (- 1)))
     = Some halves23_candidates"
  by (simp add: eligible_2_3 cells_halves23 b64_sel ops_halves23 exp64_val
      halves23_candidates_def)
     (simp add: halves23_def ops_halves23 exp64_val)

lemma Generate_halves23:
  "Generate b64 exp64 rowmajor halves23 (- 1) (Float 4533975641324147 (- 53))
     = (Some \<lparr>User = 0, Choices = [2, 0], weight = Float 2731571253070597 (- 52)\<rparr>, halves23)"
proof -
  have s: "Shape (X halves23) = [2, 3]" by (simp add: halves23_def)
  show ?thesis
    by (simp add: Generate_those [OF s] candidates_halves23 halves23_candidates_def b64_sel
        zero_val ops_halves23 elem_def cells_halves23)
qed

lemma cumulative_choice_halves23:
  "cumulative_choice b64 (Float 4533975641324147 (- 53)) halves23_candidates
     = Some \<lparr>User = 0, Choices = [2, 1], weight = Float 2731571253070597 (- 52)\<rparr>"
  "cumulative_choice exact (value_of (Float 4533975641324147 (- 53)))
       (map in_reals halves23_candidates)
     = Some (in_reals \<lparr>User = 0, Choices = [2, 1], weight = Float 2731571253070597 (- 52)\<rparr>)"
  by (simp_all add: cumulative_choice_def halves23_candidates_def b64_sel zero_val ops_halves23
      exact_sel in_reals_def)

subsection \<open>The end of the walk\<close>

text \<open>
  Without a candidate \<open>Generate\<close> panics, in any arithmetic. In exact arithmetic, on an
  engine whose cells can all be read, with a temperature that is not zero and a draw
  \<open>r\<close> in \<open>[0, 1)\<close>, it panics in no other case, and every weight is positive.
\<close>

lemma Generate_no_candidate:
  assumes "Shape (X p) = [users, items]" and "eligible users items f = []"
  shows "Generate A exp_f ix p f r = (None, p)"
  using assms(2) by (simp add: Generate_those [OF assms(1)])

lemma walk_exact_total:
  assumes "0 \<le> off" and "off < sum_list (map weight cs)"
    and "\<forall>c \<in> set cs. \<exists>a b xa xb. Choices c = [a, b] \<and> cell ix (X p) (User c) a = Some xa
           \<and> cell ix (X p) (User c) b = Some xb"
  shows "walk exact ix p off cs \<noteq> None"
  using assms
proof (induction cs arbitrary: off)
  case Nil
  then show ?case by simp
next
  case (Cons c cs)
  from Cons.prems(3) obtain a b xa xb where c: "Choices c = [a, b]"
    "cell ix (X p) (User c) a = Some xa" "cell ix (X p) (User c) b = Some xb"
    by auto
  show ?case
  proof (cases "off < weight c")
    case True
    with c show ?thesis by (simp add: exact_sel elem_def)
  next
    case False
    then have "0 \<le> off - weight c" by simp
    moreover have "off - weight c < sum_list (map weight cs)"
      using Cons.prems(2) by simp
    moreover have "\<forall>c \<in> set cs. \<exists>a b xa xb. Choices c = [a, b]
        \<and> cell ix (X p) (User c) a = Some xa \<and> cell ix (X p) (User c) b = Some xb"
      using Cons.prems(3) by simp
    ultimately have "walk exact ix p (off - weight c) cs \<noteq> None"
      by (rule Cons.IH)
    with False show ?thesis by (simp add: exact_sel)
  qed
qed

lemma candidates_exist:
  assumes "\<forall>u a. 0 \<le> u \<and> u < users \<and> 0 \<le> a \<and> a < items \<longrightarrow> cell ix (X p) u a \<noteq> None"
    and "set ts \<subseteq> set (eligible users items f)"
  shows "\<exists>cs. those (map (candidate A exp_f ix p) ts) = Some cs"
  using assms(2)
proof (induction ts)
  case Nil
  show ?case by simp
next
  case (Cons t ts)
  obtain u a b where t: "t = (u, a, b)" by (cases t)
  from Cons.prems t have "(u, a, b) \<in> set (eligible users items f)" by simp
  then have "0 \<le> u \<and> u < users \<and> 0 \<le> a \<and> a < items \<and> 0 \<le> b \<and> b < items"
    by (simp add: eligible_set)
  with assms(1) obtain xa xb where "cell ix (X p) u a = Some xa" "cell ix (X p) u b = Some xb"
    by (metis option.exhaust)
  moreover from Cons obtain cs where "those (map (candidate A exp_f ix p) ts) = Some cs"
    by auto
  ultimately show ?case by (simp add: t)
qed

lemma Generate_exact_fatal:
  assumes "Shape (X p) = [users, items]"
    and "\<forall>u a. 0 \<le> u \<and> u < users \<and> 0 \<le> a \<and> a < items \<longrightarrow> cell ix (X p) u a \<noteq> None"
    and "0 \<le> r" and "r < 1" and "T p \<noteq> 0"
  shows "(fst (Generate exact exp ix p f r) = None \<longleftrightarrow> eligible users items f = [])
       \<and> (\<exists>cs. those (map (candidate exact exp ix p) (eligible users items f)) = Some cs
             \<and> (\<forall>c \<in> set cs. 0 < weight c))"
proof -
  let ?ts = "eligible users items f"
  from candidates_exist [OF assms(2)] obtain cs where
    cs: "those (map (candidate exact exp ix p) ?ts) = Some cs"
    by blast
  have len: "length cs = length ?ts"
    and nth: "\<forall>j < length ?ts. candidate exact exp ix p (?ts ! j) = Some (cs ! j)"
    using those_candidates [OF cs] by auto
  have each: "\<exists>a b xa xb. Choices c = [a, b] \<and> cell ix (X p) (User c) a = Some xa
        \<and> cell ix (X p) (User c) b = Some xb \<and> 0 < weight c" if "c \<in> set cs" for c
  proof -
    from that obtain j where j: "j < length cs" "c = cs ! j"
      by (auto simp: in_set_conv_nth)
    obtain u a b where t: "?ts ! j = (u, a, b)" by (cases "?ts ! j")
    have "candidate exact exp ix p (u, a, b) = Some c"
      using nth j len t by auto
    from candidate_Some [OF this] show ?thesis by auto
  qed
  have gen: "Generate exact exp ix p f r = (walk exact ix p (r * sum_list (map weight cs)) cs, p)"
    using assms(1) cs by (simp add: Generate_those exact_sel foldl_add_sum)
  have "fst (Generate exact exp ix p f r) = None \<longleftrightarrow> cs = []"
  proof
    assume none: "fst (Generate exact exp ix p f r) = None"
    show "cs = []"
    proof (rule ccontr)
      assume ne: "cs \<noteq> []"
      have pos: "\<forall>w \<in> set (map weight cs). 0 < w" using each by auto
      have "0 < sum_list (map weight cs)"
      proof (cases cs)
        case Nil
        with ne show ?thesis by simp
      next
        case (Cons c cs')
        have "0 < weight c" using pos Cons by simp
        moreover have "0 \<le> sum_list (map weight cs')"
          using pos Cons by (intro sum_list_nonneg) (auto intro: less_imp_le)
        ultimately show ?thesis using Cons by simp
      qed
      then have "0 \<le> r * sum_list (map weight cs)"
        and "r * sum_list (map weight cs) < sum_list (map weight cs)"
        using assms(3,4) by simp_all
      moreover have "\<forall>c \<in> set cs. \<exists>a b xa xb. Choices c = [a, b]
          \<and> cell ix (X p) (User c) a = Some xa \<and> cell ix (X p) (User c) b = Some xb"
        using each by blast
      ultimately have "walk exact ix p (r * sum_list (map weight cs)) cs \<noteq> None"
        by (rule walk_exact_total)
      with none gen show False by simp
    qed
  next
    assume "cs = []"
    with gen show "fst (Generate exact exp ix p f r) = None" by simp
  qed
  moreover have "cs = [] \<longleftrightarrow> ?ts = []" using len by auto
  moreover have "\<forall>c \<in> set cs. 0 < weight c" using each by blast
  ultimately show ?thesis using cs by blast
qed

lemma ops_sixteenths13:
  "b64_sub (Float 0 0) (Float 0 0) = Float 0 0"
  "b64_div (Float 0 0) (Float 1 0) = Float 0 0"
  "b64_add (Float 0 0) (Float 1 0) = Float 1 0"
  "b64_sub (Float 0 0) (Float 31 (- 4)) = Float (- 31) (- 4)"
  "b64_div (Float (- 31) (- 4)) (Float 1 0) = Float (- 31) (- 4)"
  "b64_add (Float 1 0) (Float 5190440331575481 (- 55)) = Float 5152404668817431 (- 52)"
  "b64_add (Float 5152404668817431 (- 52)) (Float 1 0) = Float 1207000537023491 (- 49)"
  "b64_add (Float 1207000537023491 (- 49)) (Float 5190440331575481 (- 55)) = Float 644050583602179 (- 48)"
  "b64_sub (Float 31 (- 4)) (Float 0 0) = Float 31 (- 4)"
  "b64_add (Float 644050583602179 (- 48)) (Float 5190440331575481 (- 55)) = Float 1369201797385225 (- 49)"
  "b64_add (Float 1369201797385225 (- 49)) (Float 5190440331575481 (- 55)) = Float 362575606891523 (- 47)"
  "b64_mul (Float 9007199254740991 (- 53)) (Float 362575606891523 (- 47)) = Float 5801209710264367 (- 51)"
  "b64_lt (Float 5801209710264367 (- 51)) (Float 1 0) \<longleftrightarrow> False"
  "b64_sub (Float 5801209710264367 (- 51)) (Float 1 0) = Float 3549409896579119 (- 51)"
  "b64_lt (Float 3549409896579119 (- 51)) (Float 5190440331575481 (- 55)) \<longleftrightarrow> False"
  "b64_sub (Float 3549409896579119 (- 51)) (Float 5190440331575481 (- 55)) = Float 6450014751711303 (- 52)"
  "b64_lt (Float 6450014751711303 (- 52)) (Float 1 0) \<longleftrightarrow> False"
  "b64_sub (Float 6450014751711303 (- 52)) (Float 1 0) = Float 1946415124340807 (- 52)"
  "b64_lt (Float 1946415124340807 (- 52)) (Float 5190440331575481 (- 55)) \<longleftrightarrow> False"
  "b64_sub (Float 1946415124340807 (- 52)) (Float 5190440331575481 (- 55)) = Float 81100630180867 (- 48)"
  "b64_lt (Float 81100630180867 (- 48)) (Float 5190440331575481 (- 55)) \<longleftrightarrow> False"
  "b64_sub (Float 81100630180867 (- 48)) (Float 5190440331575481 (- 55)) = Float 5190440331575495 (- 55)"
  "b64_lt (Float 5190440331575495 (- 55)) (Float 5190440331575481 (- 55)) \<longleftrightarrow> False"
  "b64_sub (Float 5190440331575495 (- 55)) (Float 5190440331575481 (- 55)) = Float 7 (- 54)"
  by (simp_all add: b64_eval)

lemma cells_sixteenths13:
  "cell rowmajor (X sixteenths13) 0 0 = Some (Float 0 0)"
  "cell rowmajor (X sixteenths13) 0 1 = Some (Float 0 0)"
  "cell rowmajor (X sixteenths13) 0 2 = Some (Float 31 (- 4))"
  by (simp_all add: cell_def rowmajor_def sixteenths13_def)

lemma candidates_sixteenths13:
  "those (map (candidate b64 exp64 rowmajor sixteenths13) (eligible 1 3 (- 1)))
     = Some [\<lparr>User = 0, Choices = [0, 1], weight = Float 1 0\<rparr>,
             \<lparr>User = 0, Choices = [0, 2], weight = Float 5190440331575481 (- 55)\<rparr>,
             \<lparr>User = 0, Choices = [1, 0], weight = Float 1 0\<rparr>,
             \<lparr>User = 0, Choices = [1, 2], weight = Float 5190440331575481 (- 55)\<rparr>,
             \<lparr>User = 0, Choices = [2, 0], weight = Float 5190440331575481 (- 55)\<rparr>,
             \<lparr>User = 0, Choices = [2, 1], weight = Float 5190440331575481 (- 55)\<rparr>]"
  by (simp add: eligible_1_3 cells_sixteenths13 b64_sel ops_sixteenths13 exp64_val)
     (simp add: sixteenths13_def ops_sixteenths13 exp64_val)

text \<open>
  Claim C7 says that \<open>Generate\<close> panics only when there is no candidate. In exact
  arithmetic that is so (\<open>Generate_exact_fatal\<close>). In binary64 the walk can reach the end
  of the candidates: on \<open>sixteenths13\<close>, with the temperature 1 of \<open>NewEngine\<close>, the six
  candidates have the weights \<open>1, w, 1, w, w, w\<close> with \<open>w = exp(-1.9375) > 0\<close>; for the
  draw \<open>r = 1 - 2^-53\<close>, the largest value below 1, five subtractions leave
  \<open>5190440331575495 * 2^-55\<close> of the draw, which is not below the last weight
  \<open>5190440331575481 * 2^-55\<close>, and \<open>Generate\<close> panics.
\<close>

theorem Generate_panics_with_candidates:
  "Generate b64 exp64 rowmajor sixteenths13 (- 1) (Float 9007199254740991 (- 53))
     = (None, sixteenths13)
   \<and> map_option (map weight)
        (those (map (candidate b64 exp64 rowmajor sixteenths13) (eligible 1 3 (- 1))))
     = Some [Float 1 0, Float 5190440331575481 (- 55), Float 1 0, Float 5190440331575481 (- 55),
             Float 5190440331575481 (- 55), Float 5190440331575481 (- 55)]
   \<and> b64_lt (Float 0 0) (Float 1 0) \<and> b64_lt (Float 0 0) (Float 5190440331575481 (- 55))
   \<and> b64_lt (Float 9007199254740991 (- 53)) (Float 1 0)"
proof -
  have s: "Shape (X sixteenths13) = [1, 3]" by (simp add: sixteenths13_def)
  have "Generate b64 exp64 rowmajor sixteenths13 (- 1) (Float 9007199254740991 (- 53))
     = (None, sixteenths13)"
    by (simp add: Generate_those [OF s] candidates_sixteenths13 b64_sel zero_val ops_sixteenths13)
  moreover have "map_option (map weight)
        (those (map (candidate b64 exp64 rowmajor sixteenths13) (eligible 1 3 (- 1))))
     = Some [Float 1 0, Float 5190440331575481 (- 55), Float 1 0, Float 5190440331575481 (- 55),
             Float 5190440331575481 (- 55), Float 5190440331575481 (- 55)]"
    by (simp add: candidates_sixteenths13)
  moreover have "b64_lt (Float 0 0) (Float 1 0)" "b64_lt (Float 0 0) (Float 5190440331575481 (- 55))"
    "b64_lt (Float 9007199254740991 (- 53)) (Float 1 0)"
    by (simp_all add: b64_eval)
  ultimately show ?thesis by (intro conjI)
qed

text \<open>
  The walk also reaches its end when every weight is zero: on \<open>thousand12\<close> both
  candidates have the weight \<open>exp(-1000)\<close>, which is below the smallest positive binary64
  value, so that an exponential in binary64 gives zero.
\<close>

lemma ops_thousand12:
  "b64_sub (Float 0 0) (Float 125 3) = Float (- 125) 3"
  "b64_sub (Float 125 3) (Float 0 0) = Float 125 3"
  "b64_div (Float (- 125) 3) (Float 1 0) = Float (- 125) 3"
  "b64_add (Float 0 0) (Float 0 0) = Float 0 0"
  "b64_mul (Float 1 (- 1)) (Float 0 0) = Float 0 0"
  "b64_lt (Float 0 0) (Float 0 0) \<longleftrightarrow> False"
  "b64_sub (Float 0 0) (Float 0 0) = Float 0 0"
  by (simp_all add: b64_eval)

lemma Generate_underflow:
  assumes "exp_f (Float (- 125) 3) = Float 0 0"
  shows "Generate b64 exp_f rowmajor thousand12 (- 1) (Float 1 (- 1)) = (None, thousand12)"
proof -
  have s: "Shape (X thousand12) = [1, 2]" by (simp add: thousand12_def)
  have c: "cell rowmajor (X thousand12) 0 0 = Some (Float 0 0)"
    "cell rowmajor (X thousand12) 0 1 = Some (Float 125 3)"
    by (simp_all add: cell_def rowmajor_def thousand12_def)
  have t: "T thousand12 = Float 1 0" by (simp add: thousand12_def)
  show ?thesis
    by (simp add: Generate_those [OF s] eligible_1_2 c t b64_sel ops_thousand12 assms zero_val)
qed

end
